theory Spec2Isabelle
  imports Complex_Main "HOL-Library.AList"
begin

section \<open>Python values, errors and the host-language primitives\<close>

text \<open>
  The entity classes of \<^verbatim>\<open>models.py\<close>. Every one of them is a subclass of
  \<^verbatim>\<open>Base\<close>.
\<close>

datatype cls = Unit | Tag | Ingredient | IngredientItem | Category | Recipe

text \<open>
  The values an attribute of an entity or a field of a payload can hold. A float is the
  rational number it denotes. An entity (\<open>PObj\<close>) carries its class and its attributes
  by name: the columns, and the related entities its relationships load.
\<close>

datatype pyval =
    PNone
  | PBool bool
  | PInt int
  | PFloat rat
  | PStr string
  | PList "pyval list"
  | PObj cls "(string \<times> pyval) list"

text \<open>
  The transfer structure that serialization produces: \<^verbatim>\<open>None\<close>, a float, a string, a
  list, or a dictionary in insertion order.
\<close>

datatype json =
    JNone
  | JFloat rat
  | JStr string
  | JList "json list"
  | JDict "(string \<times> json) list"

text \<open>
  Exceptions as values. \<open>HTTPException\<close> carries \<^verbatim>\<open>status_code\<close> and \<^verbatim>\<open>detail\<close>, the
  others the message where the source or the interpreter fixes one.
\<close>

datatype error =
    HTTPException int string
  | ValueError string
  | AttributeError string
  | TypeError string
  | OverflowError
  | IntegrityError string
  | FlushError string
  | StaleDataError
  | UnmappedInstanceError

text \<open>
  What the interpreter and the libraries contribute, and the source does not define, is
  a parameter of the model:
  \<^item> \<open>float_repr\<close>: \<^verbatim>\<open>repr\<close> of a float;
  \<^item> \<open>str_repr\<close>: \<^verbatim>\<open>repr\<close> of a string (quoting and escapes);
  \<^item> \<open>float_of_str\<close>: \<^verbatim>\<open>float(s)\<close> for a string, \<open>None\<close> where it raises \<^verbatim>\<open>ValueError\<close>;
  \<^item> \<open>set_iter\<close>: the order in which a set of strings, built from the given list, is
    iterated (\<^verbatim>\<open>_repr\<close> joins a set comprehension);
  \<^item> \<open>schema_class\<close>: \<^verbatim>\<open>str(read_schema.__class__)\<close>, the metaclass of the read schema,
    which is the same for every schema class.
\<close>

record pyenv =
  float_repr :: "rat \<Rightarrow> string"
  str_repr :: "string \<Rightarrow> string"
  float_of_str :: "string \<Rightarrow> rat option"
  set_iter :: "string list \<Rightarrow> string list"
  schema_class :: string

subsection \<open>Formatting and coercion primitives\<close>

fun str_nat :: "nat \<Rightarrow> string" where
  "str_nat n =
     (if n < 10 then [''0123456789'' ! n]
      else str_nat (n div 10) @ [''0123456789'' ! (n mod 10)])"

declare str_nat.simps [simp del]

definition str_int :: "int \<Rightarrow> string" where
  "str_int i = (if i < 0 then ''-'' @ str_nat (nat (- i)) else str_nat (nat i))"

fun join :: "string \<Rightarrow> string list \<Rightarrow> string" where
  "join sep [] = ''''"
| "join sep [x] = x"
| "join sep (x # y # ys) = x @ sep @ join sep (y # ys)"

fun bit_length :: "nat \<Rightarrow> nat" where
  "bit_length n = (if n = 0 then 0 else Suc (bit_length (n div 2)))"

declare bit_length.simps [simp del]

text \<open>
  \<^verbatim>\<open>float(i)\<close> for an integer: exact up to 53 significant bits, rounded to nearest (ties
  to even) beyond, and \<^verbatim>\<open>OverflowError\<close> when the rounded value does not fit a double.
\<close>

definition float_of_int :: "int \<Rightarrow> error + rat" where
  "float_of_int i =
     (let a = nat \<bar>i\<bar>; n = bit_length a
      in if n \<le> 53 then Inr (of_int i)
         else
           let e = n - 53;
               q = a div 2 ^ e;
               r = a mod 2 ^ e;
               h = 2 ^ (e - 1);
               q' = (if h < r \<or> (r = h \<and> odd q) then q + 1 else q);
               m = q' * 2 ^ e
           in if 2 ^ 1024 \<le> m then Inl OverflowError
              else Inr (of_int (sgn i * int m)))"

text \<open>Python truthiness, as \<^verbatim>\<open>if x:\<close> and \<^verbatim>\<open>not x\<close> read it.\<close>

fun truthy :: "pyval \<Rightarrow> bool" where
  "truthy PNone = False"
| "truthy (PBool b) = b"
| "truthy (PInt i) = (i \<noteq> 0)"
| "truthy (PFloat r) = (r \<noteq> 0)"
| "truthy (PStr s) = (s \<noteq> [])"
| "truthy (PList xs) = (xs \<noteq> [])"
| "truthy (PObj c attrs) = True"

text \<open>The first exception of a sequence of evaluations wins, as in a comprehension.\<close>

fun sequence :: "(error + 'a) list \<Rightarrow> error + 'a list" where
  "sequence [] = Inr []"
| "sequence (x # xs) =
     (case x of
        Inl e \<Rightarrow> Inl e
      | Inr v \<Rightarrow> (case sequence xs of Inl e \<Rightarrow> Inl e | Inr vs \<Rightarrow> Inr (v # vs)))"

text \<open>
  Sequencing: the continuation runs on the value, an exception propagates.
\<close>

definition bindE :: "error + 'a \<Rightarrow> ('a \<Rightarrow> error + 'b) \<Rightarrow> error + 'b" where
  "bindE m f = (case m of Inl e \<Rightarrow> Inl e | Inr x \<Rightarrow> f x)"

lemma bindE_simps [simp]:
  "bindE (Inl e) f = Inl e"
  "bindE (Inr x) f = f x"
  by (simp_all add: bindE_def)

lemma bindE_cong [fundef_cong]:
  "m = m' \<Longrightarrow> (\<And>x. m' = Inr x \<Longrightarrow> f x = f' x) \<Longrightarrow> bindE m f = bindE m' f'"
  by (auto simp: bindE_def split: sum.splits)

text \<open>\<^verbatim>\<open>getattr(obj, name)\<close> on an attribute list; a missing name raises.\<close>

definition getattr :: "(string \<times> pyval) list \<Rightarrow> string \<Rightarrow> error + pyval" where
  "getattr attrs name =
     (case map_of attrs name of
        None \<Rightarrow> Inl (AttributeError name)
      | Some v \<Rightarrow> Inr v)"

text \<open>
  Attribute access on a value: only an entity has attributes by name; on \<^verbatim>\<open>None\<close> and on
  every other value the access raises.
\<close>

fun attr_of :: "pyval \<Rightarrow> string \<Rightarrow> error + pyval" where
  "attr_of (PObj c attrs) name = getattr attrs name"
| "attr_of v name = Inl (AttributeError name)"

section \<open>The serialization engine (\<^verbatim>\<open>models.py\<close>)\<close>

text \<open>\<^verbatim>\<open>__items__\<close> and \<^verbatim>\<open>__class__.__name__\<close> of each class.\<close>

fun items :: "cls \<Rightarrow> string list" where
  "items Unit = [''name'', ''grams'']"
| "items Tag = [''name'']"
| "items Ingredient = [''id'', ''name'', ''energy'', ''fats'', ''carbs'', ''proteins'',
     ''fibres'', ''salt'', ''is_liquid'', ''density'']"
| "items IngredientItem = [''ingredient'', ''amount'', ''unit'', ''note'']"
| "items Category = [''id'', ''name'', ''tags'']"
| "items Recipe = [''id'', ''title'', ''subtitle'', ''ingredients'', ''body'', ''source'',
     ''source_name'', ''tags'', ''portions'']"

fun class_name :: "cls \<Rightarrow> string" where
  "class_name Unit = ''Unit''"
| "class_name Tag = ''Tag''"
| "class_name Ingredient = ''Ingredient''"
| "class_name IngredientItem = ''IngredientItem''"
| "class_name Category = ''Category''"
| "class_name Recipe = ''Recipe''"

text \<open>
  \<^verbatim>\<open>Base._get_attributes\<close>: the attributes named by \<^verbatim>\<open>__items__\<close>, in that order, without the
  excluded ones and without those the object does not have.
\<close>

fun get_attributes_from ::
  "(string \<times> pyval) list \<Rightarrow> string list \<Rightarrow> string list \<Rightarrow> (string \<times> pyval) list" where
  "get_attributes_from attrs exclude [] = []"
| "get_attributes_from attrs exclude (a # as) =
     (if a \<in> set exclude then get_attributes_from attrs exclude as
      else case map_of attrs a of
             None \<Rightarrow> get_attributes_from attrs exclude as
           | Some v \<Rightarrow> (a, v) # get_attributes_from attrs exclude as)"

definition get_attributes ::
  "cls \<Rightarrow> (string \<times> pyval) list \<Rightarrow> string list \<Rightarrow> (string \<times> pyval) list" where
  "get_attributes c attrs exclude = get_attributes_from attrs exclude (items c)"

text \<open>\<^verbatim>\<open>str\<close> and \<^verbatim>\<open>repr\<close> of a transfer structure.\<close>

fun json_str :: "pyenv \<Rightarrow> json \<Rightarrow> string"
  and json_repr :: "pyenv \<Rightarrow> json \<Rightarrow> string" where
  "json_str env (JStr s) = s"
| "json_str env j = json_repr env j"
| "json_repr env JNone = ''None''"
| "json_repr env (JFloat r) = float_repr env r"
| "json_repr env (JStr s) = str_repr env s"
| "json_repr env (JList js) = ''['' @ join '', '' (map (json_repr env) js) @ '']''"
| "json_repr env (JDict kvs) =
     ''{'' @ join '', '' (map (\<lambda>kv. str_repr env (fst kv) @ '': '' @ json_repr env (snd kv)) kvs)
       @ ''}''"

text \<open>
  \<^verbatim>\<open>Base._repr\<close>: the keyword arguments, each formatted as \<^verbatim>\<open>k=v\<close>, collected in a set
  and joined in the set's iteration order.
\<close>

definition repr_fmt :: "pyenv \<Rightarrow> cls \<Rightarrow> (string \<times> string) list \<Rightarrow> string" where
  "repr_fmt env c kwargs =
     ''<'' @ class_name c @ '' ('' @
       join '', '' (set_iter env (map (\<lambda>kv. fst kv @ ''='' @ snd kv) kwargs)) @ '')>''"

lemma get_attributes_from_size:
  "(k, v) \<in> set (get_attributes_from attrs ex as) \<Longrightarrow> (k, v) \<in> set attrs"
  by (induction as) (auto split: if_splits option.splits dest: map_of_SomeD)

lemma attr_size:
  "(k, v) \<in> set attrs \<Longrightarrow> size v < Suc (size_list (size_prod (\<lambda>_. 0) size) attrs)"
  by (induction attrs) auto

lemma getattr_size:
  "getattr attrs k = Inr v \<Longrightarrow> size v < Suc (size_list (size_prod (\<lambda>_. 0) size) attrs)"
  by (auto simp: getattr_def split: option.splits dest!: map_of_SomeD attr_size)

lemma get_attributes_size:
  "(k, v) \<in> set (get_attributes c attrs ex) \<Longrightarrow>
     size v < Suc (size_list (size_prod (\<lambda>_. 0) size) attrs)"
  unfolding get_attributes_def by (blast dest: get_attributes_from_size attr_size)

lemma elem_size: "x \<in> set xs \<Longrightarrow> size (x::pyval) < Suc (size_list size xs)"
  by (induction xs) auto

lemma attr_of_size: "attr_of v k = Inr w \<Longrightarrow> size w < size v"
  by (cases v) (auto dest: getattr_size)

text \<open>
  \<^verbatim>\<open>_dictify\<close>, \<^verbatim>\<open>Base.get_dictionary\<close> and the display string (\<^verbatim>\<open>str\<close>, \<^verbatim>\<open>repr\<close>) of a
  value. The display string of an entity is its \<^verbatim>\<open>__repr__\<close>: \<^verbatim>\<open>Ingredient\<close> and
  \<^verbatim>\<open>IngredientItem\<close> define their own, every other class takes \<^verbatim>\<open>Base.__repr__\<close>, which
  serializes the entity again with the default depth 99.
\<close>

function dictify :: "pyenv \<Rightarrow> pyval \<Rightarrow> int \<Rightarrow> error + json"
  and get_dictionary ::
    "pyenv \<Rightarrow> cls \<Rightarrow> (string \<times> pyval) list \<Rightarrow> int \<Rightarrow> string list \<Rightarrow> error + (string \<times> json) list"
  and py_str :: "pyenv \<Rightarrow> pyval \<Rightarrow> error + string"
  and py_repr :: "pyenv \<Rightarrow> pyval \<Rightarrow> error + string"
where
  "dictify env PNone depth = Inr JNone"
| "dictify env (PObj c attrs) depth =
     (if depth > 0 then
        bindE (get_dictionary env c attrs (depth - 1) []) (\<lambda>d. Inr (JDict d))
      else bindE (py_str env (PObj c attrs)) (\<lambda>s. Inr (JStr s)))"
| "dictify env (PList xs) depth =
     (if depth > 1 then
        bindE (sequence (map (\<lambda>x. dictify env x (depth - 1)) xs)) (\<lambda>js. Inr (JList js))
      else
        bindE (sequence (map (py_str env) xs)) (\<lambda>ss. Inr (JList (map JStr ss))))"
| "dictify env (PBool b) depth = Inr (JFloat (if b then 1 else 0))"
| "dictify env (PInt i) depth = bindE (float_of_int i) (\<lambda>r. Inr (JFloat r))"
| "dictify env (PFloat r) depth = Inr (JFloat r)"
| "dictify env (PStr s) depth =
     (case float_of_str env s of Some r \<Rightarrow> Inr (JFloat r) | None \<Rightarrow> Inr (JStr s))"
| "get_dictionary env c attrs depth exclude =
     sequence (map (\<lambda>kv. bindE (dictify env (snd kv) depth) (\<lambda>j. Inr (fst kv, j)))
                 (get_attributes c attrs exclude))"
| "py_str env PNone = Inr ''None''"
| "py_str env (PBool b) = Inr (if b then ''True'' else ''False'')"
| "py_str env (PInt i) = Inr (str_int i)"
| "py_str env (PFloat r) = Inr (float_repr env r)"
| "py_str env (PStr s) = Inr s"
| "py_str env (PList xs) =
     bindE (sequence (map (py_repr env) xs)) (\<lambda>ss. Inr (''['' @ join '', '' ss @ '']''))"
| "py_str env (PObj c attrs) =
     (if c = Ingredient then
        bindE (getattr attrs ''id'') (\<lambda>i.
        bindE (getattr attrs ''name'') (\<lambda>n.
        bindE (py_str env i) (\<lambda>si.
        bindE (py_str env n) (\<lambda>sn.
          Inr (repr_fmt env c [(''id'', si), (''name'', sn)])))))
      else if c = IngredientItem then
        bindE (getattr attrs ''ingredient'') (\<lambda>ing.
        bindE (attr_of ing ''name'') (\<lambda>n.
        bindE (getattr attrs ''amount'') (\<lambda>a.
        bindE (getattr attrs ''unit'') (\<lambda>u.
        bindE (py_str env n) (\<lambda>sn.
        bindE (py_str env a) (\<lambda>sa.
        bindE (py_str env u) (\<lambda>su.
          Inr (repr_fmt env c [(''ingredient'', sn), (''amount'', sa), (''unit'', su)]))))))))
      else
        bindE (get_dictionary env c attrs 99 []) (\<lambda>d.
          Inr (repr_fmt env c (map (\<lambda>kv. (fst kv, json_str env (snd kv))) d))))"
| "py_repr env (PStr s) = Inr (str_repr env s)"
| "py_repr env PNone = py_str env PNone"
| "py_repr env (PBool b) = py_str env (PBool b)"
| "py_repr env (PInt i) = py_str env (PInt i)"
| "py_repr env (PFloat r) = py_str env (PFloat r)"
| "py_repr env (PList xs) = py_str env (PList xs)"
| "py_repr env (PObj c attrs) = py_str env (PObj c attrs)"
  by pat_completeness auto
termination
  apply (relation "measure (\<lambda>x. case x of
           Inl (Inl (env, v, d)) \<Rightarrow> 3 * size v + 2
         | Inl (Inr (env, c, attrs, d, ex)) \<Rightarrow> 3 * size (PObj c attrs)
         | Inr (Inl (env, v)) \<Rightarrow> 3 * size v + 1
         | Inr (Inr (env, v)) \<Rightarrow> 3 * size v + 2)")
  apply (auto dest!: elem_size get_attributes_size getattr_size attr_of_size)
  done

section \<open>The persistence session\<close>

text \<open>
  The tables of \<^verbatim>\<open>models.py\<close>. A row is the list of its column values by name; a table is
  the list of its rows in insertion order. The three association tables
  (\<^verbatim>\<open>ingredients\<close>, \<^verbatim>\<open>tags\<close>, \<^verbatim>\<open>category_tags\<close>) hold pairs of primary keys: the owning
  side first (\<^verbatim>\<open>recipe_id\<close> or \<^verbatim>\<open>category_id\<close>), the member second.
\<close>

type_synonym row = "(string \<times> pyval) list"

datatype assoc = Ingredients_tbl | Tags_tbl | Category_tags_tbl

record db =
  rows :: "cls \<Rightarrow> row list"
  links :: "assoc \<Rightarrow> (pyval \<times> pyval) list"

text \<open>The columns each class declares, with \<^verbatim>\<open>Base.id\<close> first.\<close>

fun columns :: "cls \<Rightarrow> string list" where
  "columns Unit = [''id'', ''name'', ''grams'']"
| "columns Tag = [''id'', ''name'']"
| "columns Ingredient = [''id'', ''name'', ''approx_per_piece'', ''energy'', ''fats'', ''carbs'',
     ''proteins'', ''fibres'', ''salt'', ''is_liquid'', ''density'']"
| "columns IngredientItem = [''id'', ''ingredient_id'', ''amount'', ''unit_id'', ''note'',
     ''exclude'']"
| "columns Category = [''id'', ''name'']"
| "columns Recipe = [''id'', ''title'', ''subtitle'', ''source_name'', ''source'', ''draft'',
     ''portions'', ''body'']"

text \<open>\<^verbatim>\<open>default=\<close> of a column; \<open>PNone\<close> where the column declares none.\<close>

definition column_default :: "cls \<Rightarrow> string \<Rightarrow> pyval" where
  "column_default c col =
     (if c = Unit \<and> col = ''grams'' then PInt 0
      else if c = Ingredient \<and> col \<in> set [''approx_per_piece'', ''energy'', ''fats'', ''carbs'',
                ''proteins'', ''fibres'', ''salt''] then PInt 0
      else if c = Ingredient \<and> col = ''is_liquid'' then PBool False
      else if c = Ingredient \<and> col = ''density'' then PInt 1000
      else if c = IngredientItem \<and> col = ''amount'' then PInt 0
      else if c = IngredientItem \<and> col = ''exclude'' then PBool False
      else if c = Recipe \<and> col = ''draft'' then PBool False
      else if c = Recipe \<and> col = ''portions'' then PInt 4
      else PNone)"

text \<open>The columns declared \<^verbatim>\<open>nullable=False\<close> and those declared \<^verbatim>\<open>unique=True\<close>.\<close>

fun not_null :: "cls \<Rightarrow> string list" where
  "not_null Unit = [''name'']"
| "not_null Tag = [''name'']"
| "not_null Ingredient = [''name'']"
| "not_null IngredientItem = []"
| "not_null Category = [''name'']"
| "not_null Recipe = [''title'']"

fun unique_cols :: "cls \<Rightarrow> string list" where
  "unique_cols Unit = [''name'']"
| "unique_cols c = []"

text \<open>
  The relationships with a \<^verbatim>\<open>secondary\<close> table: \<^verbatim>\<open>Recipe.ingredients\<close>, \<^verbatim>\<open>Recipe.tags\<close> and
  \<^verbatim>\<open>Category.tags\<close>, each with its association table and the class of its members.
\<close>

definition relationship :: "cls \<Rightarrow> string \<Rightarrow> (assoc \<times> cls) option" where
  "relationship c name =
     (if c = Recipe \<and> name = ''ingredients'' then Some (Ingredients_tbl, IngredientItem)
      else if c = Recipe \<and> name = ''tags'' then Some (Tags_tbl, Tag)
      else if c = Category \<and> name = ''tags'' then Some (Category_tags_tbl, Tag)
      else None)"

text \<open>Reading a column of a row: a column the row does not hold reads as \<^verbatim>\<open>None\<close>.\<close>

definition col :: "row \<Rightarrow> string \<Rightarrow> pyval" where
  "col r name = (case map_of r name of None \<Rightarrow> PNone | Some v \<Rightarrow> v)"

definition row_id :: "row \<Rightarrow> pyval" where
  "row_id r = col r ''id''"

definition find_row :: "db \<Rightarrow> cls \<Rightarrow> pyval \<Rightarrow> row option" where
  "find_row d c key = (if key = PNone then None else find (\<lambda>r. row_id r = key) (rows d c))"

text \<open>
  An ORM instance in memory: its class, the primary key of the row it was loaded from
  (\<open>None\<close> for a transient instance, which no row stands for yet) and its attribute
  values. An \<open>obj\<close> also records the collections assigned to its relationships since it
  was loaded; a member of such a list is an instance or \<^verbatim>\<open>None\<close>.
\<close>

record ent =
  ecls :: cls
  eident :: "pyval option"
  eattrs :: "(string \<times> pyval) list"

record obj = ent +
  orels :: "(string \<times> ent option list) list"

definition as_member :: "obj \<Rightarrow> ent" where
  "as_member m = \<lparr>ecls = ecls m, eident = eident m, eattrs = eattrs m\<rparr>"

text \<open>
  The session: the committed state of the database, and the instances whose state is
  not flushed yet (modified persistent instances and added transient ones).
\<close>

record session =
  sdb :: db
  spending :: "obj list"

text \<open>\<^verbatim>\<open>session.get(model, key)\<close>: the instance for the row with this primary key.\<close>

definition session_get :: "session \<Rightarrow> cls \<Rightarrow> pyval \<Rightarrow> obj option" where
  "session_get s c key =
     (case find_row (sdb s) c key of
        None \<Rightarrow> None
      | Some r \<Rightarrow> Some \<lparr>ecls = c, eident = Some key, eattrs = r, orels = []\<rparr>)"

text \<open>\<^verbatim>\<open>model()\<close>: a transient instance; every column attribute reads as \<^verbatim>\<open>None\<close>.\<close>

definition new_obj :: "cls \<Rightarrow> obj" where
  "new_obj c = \<lparr>ecls = c, eident = None, eattrs = map (\<lambda>a. (a, PNone)) (columns c), orels = []\<rparr>"

definition setattr :: "obj \<Rightarrow> string \<Rightarrow> pyval \<Rightarrow> obj" where
  "setattr m a v = m\<lparr>eattrs := AList.update a v (eattrs m)\<rparr>"

text \<open>
  \<^verbatim>\<open>model(**kwargs)\<close>: the declarative constructor refuses a keyword that is not an
  attribute of the class and sets the others.
\<close>

definition construct :: "cls \<Rightarrow> (string \<times> pyval) list \<Rightarrow> error + obj" where
  "construct c kwargs =
     (case filter (\<lambda>kv. fst kv \<notin> set (columns c)) kwargs of
        kv # _ \<Rightarrow> Inl (TypeError (fst kv))
      | [] \<Rightarrow> Inr (fold (\<lambda>kv m. setattr m (fst kv) (snd kv)) kwargs (new_obj c)))"

text \<open>Assigning a collection to a relationship attribute.\<close>

definition set_rel :: "obj \<Rightarrow> string \<Rightarrow> ent option list \<Rightarrow> obj" where
  "set_rel m name members = m\<lparr>orels := AList.update name members (orels m)\<rparr>"

text \<open>
  \<^verbatim>\<open>session.add\<close>: the instance joins the unit of work. A persistent instance is there
  once, with its latest state.
\<close>

definition session_add :: "session \<Rightarrow> obj \<Rightarrow> session" where
  "session_add s m =
     s\<lparr>spending :=
         filter (\<lambda>x. eident m = None \<or> ecls x \<noteq> ecls m \<or> eident x \<noteq> eident m) (spending s) @ [m]\<rparr>"

subsection \<open>Flush: INSERT and UPDATE with the declared constraints\<close>

text \<open>
  A new row without an explicit primary key takes the next integer after the largest
  key in use, 1 in an empty table.
\<close>

fun int_ids :: "row list \<Rightarrow> int list" where
  "int_ids [] = []"
| "int_ids (r # rs) = (case row_id r of PInt i \<Rightarrow> i # int_ids rs | _ \<Rightarrow> int_ids rs)"

definition next_id :: "row list \<Rightarrow> int" where
  "next_id rs = (case int_ids rs of [] \<Rightarrow> 1 | i # is \<Rightarrow> fold max is i + 1)"

text \<open>
  The constraints on a row against the other rows of its table: \<^verbatim>\<open>nullable=False\<close>, the
  primary key, \<^verbatim>\<open>unique=True\<close> (two NULLs do not collide).
\<close>

definition check_row :: "cls \<Rightarrow> row list \<Rightarrow> row \<Rightarrow> error + unit" where
  "check_row c others r =
     (if \<exists>a \<in> set (not_null c). col r a = PNone then Inl (IntegrityError ''NOT NULL'')
      else if \<exists>x \<in> set others. row_id x = row_id r then Inl (IntegrityError ''PRIMARY KEY'')
      else if \<exists>a \<in> set (unique_cols c). col r a \<noteq> PNone \<and> (\<exists>x \<in> set others. col x a = col r a)
        then Inl (IntegrityError ''UNIQUE'')
      else Inr ())"

text \<open>
  INSERT of a transient instance. A column whose attribute is \<^verbatim>\<open>None\<close> is left out of the
  statement, so its default applies; attributes that are no columns are not written.
  The result is the new state and the primary key of the new row.
\<close>

definition insert_row :: "db \<Rightarrow> cls \<Rightarrow> (string \<times> pyval) list \<Rightarrow> error + db \<times> pyval" where
  "insert_row d c attrs =
     (let vals = map (\<lambda>a. (a, if col attrs a = PNone then column_default c a else col attrs a))
                   (columns c);
          key = (if col vals ''id'' = PNone then PInt (next_id (rows d c)) else col vals ''id'');
          r = AList.update ''id'' key vals
      in bindE (check_row c (rows d c) r) (\<lambda>_.
           Inr (d\<lparr>rows := (rows d)(c := rows d c @ [r])\<rparr>, key)))"

text \<open>
  UPDATE of the row a persistent instance was loaded from, with the instance's column
  attributes as they are now. The result is the new state and the row's primary key.
\<close>

definition update_row ::
  "db \<Rightarrow> cls \<Rightarrow> pyval \<Rightarrow> (string \<times> pyval) list \<Rightarrow> error + db \<times> pyval" where
  "update_row d c key attrs =
     (case find_row d c key of
        None \<Rightarrow> Inl StaleDataError
      | Some old \<Rightarrow>
          let r = map (\<lambda>a. (a, col attrs a)) (columns c)
          in bindE (check_row c (filter (\<lambda>x. row_id x \<noteq> key) (rows d c)) r) (\<lambda>_.
               Inr (d\<lparr>rows := (rows d)(c := map (\<lambda>x. if row_id x = key then r else x) (rows d c))\<rparr>,
                    row_id r)))"

text \<open>
  The members of an assigned collection at flush: \<^verbatim>\<open>None\<close> in a collection is refused
  (\<^verbatim>\<open>FlushError\<close>); a transient member is inserted with the parent (the save-update
  cascade); a persistent member stands with its key.
\<close>

fun flush_members :: "db \<Rightarrow> ent option list \<Rightarrow> error + db \<times> pyval list" where
  "flush_members d [] = Inr (d, [])"
| "flush_members d (None # ms) = Inl (FlushError ''None value found in collection'')"
| "flush_members d (Some e # ms) =
     bindE (case eident e of None \<Rightarrow> insert_row d (ecls e) (eattrs e) | Some k \<Rightarrow> Inr (d, k))
       (\<lambda>dk. bindE (flush_members (fst dk) ms) (\<lambda>r. Inr (fst r, snd dk # snd r)))"

text \<open>
  The association rows of one parent after its collection was replaced: the rows of
  members no longer in the collection are deleted, a row is inserted for every member
  that was not attached, and the rows of the members that stay are left as they are.
  Neither \<^verbatim>\<open>Recipe.ingredients\<close> (\<^verbatim>\<open>cascade="all"\<close>) nor the tag relationships declare
  \<^verbatim>\<open>delete-orphan\<close>: the row of a removed member itself is not touched. The association
  tables have the pair as primary key, so a new member listed twice is refused.
\<close>

definition sync_links :: "db \<Rightarrow> assoc \<Rightarrow> pyval \<Rightarrow> pyval list \<Rightarrow> error + db" where
  "sync_links d t pid ids =
     (let old = map snd (filter (\<lambda>l. fst l = pid) (links d t));
          added = filter (\<lambda>m. m \<notin> set old) ids
      in if \<not> distinct added then Inl (IntegrityError ''PRIMARY KEY'')
         else Inr (d\<lparr>links := (links d)(t :=
                filter (\<lambda>l. \<not> (fst l = pid \<and> snd l \<notin> set ids)) (links d t)
                  @ map (Pair pid) added)\<rparr>))"

fun sync_rels :: "db \<Rightarrow> cls \<Rightarrow> pyval \<Rightarrow> (string \<times> ent option list) list \<Rightarrow> error + db" where
  "sync_rels d c pid [] = Inr d"
| "sync_rels d c pid (nm # rest) =
     (case relationship c (fst nm) of
        None \<Rightarrow> sync_rels d c pid rest
      | Some tc \<Rightarrow>
          bindE (flush_members d (snd nm)) (\<lambda>di.
          bindE (sync_links (fst di) (fst tc) pid (snd di)) (\<lambda>d'.
            sync_rels d' c pid rest)))"

definition flush_obj :: "db \<Rightarrow> obj \<Rightarrow> error + db \<times> pyval" where
  "flush_obj d m =
     bindE (case eident m of
              None \<Rightarrow> insert_row d (ecls m) (eattrs m)
            | Some k \<Rightarrow> update_row d (ecls m) k (eattrs m)) (\<lambda>dk.
     bindE (sync_rels (fst dk) (ecls m) (snd dk) (orels m)) (\<lambda>d'. Inr (d', snd dk)))"

fun flush_all :: "db \<Rightarrow> obj list \<Rightarrow> error + db \<times> pyval list" where
  "flush_all d [] = Inr (d, [])"
| "flush_all d (m # ms) =
     bindE (flush_obj d m) (\<lambda>dk.
     bindE (flush_all (fst dk) ms) (\<lambda>r. Inr (fst r, snd dk # snd r)))"

text \<open>
  \<^verbatim>\<open>session.commit()\<close>: everything pending is flushed and becomes the committed state,
  or the first error is raised and the committed state stays as it was. The result
  lists the primary key of every flushed instance, in the order of the unit of work.
  (A query flushes too; the flush it would trigger is the one of the commit
  that follows it in every operation below.)
\<close>

definition commit :: "session \<Rightarrow> (error + pyval list) \<times> session" where
  "commit s =
     (case flush_all (sdb s) (spending s) of
        Inl e \<Rightarrow> (Inl e, s)
      | Inr r \<Rightarrow> (Inr (snd r), \<lparr>sdb = fst r, spending = []\<rparr>))"

text \<open>
  \<^verbatim>\<open>session.add(item); session.commit()\<close> and then \<^verbatim>\<open>item.id\<close>: the instance added last is
  flushed last, so its key is the last of the list.
\<close>

definition add_commit :: "session \<Rightarrow> obj \<Rightarrow> (error + pyval) \<times> session" where
  "add_commit s m =
     (case commit (session_add s m) of
        (Inl e, s') \<Rightarrow> (Inl e, s')
      | (Inr ks, s') \<Rightarrow> (Inr (case rev ks of [] \<Rightarrow> PNone | k # _ \<Rightarrow> k), s'))"

subsection \<open>Delete\<close>

definition delete_row :: "db \<Rightarrow> cls \<Rightarrow> pyval \<Rightarrow> db" where
  "delete_row d c key = d\<lparr>rows := (rows d)(c := filter (\<lambda>r. row_id r \<noteq> key) (rows d c))\<rparr>"

definition unlink_parent :: "db \<Rightarrow> assoc \<Rightarrow> pyval \<Rightarrow> db" where
  "unlink_parent d t key = d\<lparr>links := (links d)(t := filter (\<lambda>l. fst l \<noteq> key) (links d t))\<rparr>"

definition unlink_member :: "db \<Rightarrow> assoc \<Rightarrow> pyval \<Rightarrow> db" where
  "unlink_member d t key = d\<lparr>links := (links d)(t := filter (\<lambda>l. snd l \<noteq> key) (links d t))\<rparr>"

definition members_of :: "db \<Rightarrow> assoc \<Rightarrow> pyval \<Rightarrow> pyval list" where
  "members_of d t pid = map snd (filter (\<lambda>l. fst l = pid) (links d t))"

definition parents_of :: "db \<Rightarrow> assoc \<Rightarrow> pyval \<Rightarrow> pyval list" where
  "parents_of d t mid = map fst (filter (\<lambda>l. snd l = mid) (links d t))"

text \<open>
  DELETE of one row with what the mappings attach to it: its association rows go with
  it on either side, and deleting a recipe deletes its ingredient items
  (\<^verbatim>\<open>cascade="all"\<close> on \<^verbatim>\<open>Recipe.ingredients\<close>). \<^verbatim>\<open>models.py\<close> declares nothing from
  \<^verbatim>\<open>Ingredient\<close> or \<^verbatim>\<open>Unit\<close> to the items that reference them: those rows stay.
\<close>

definition delete_obj :: "db \<Rightarrow> cls \<Rightarrow> pyval \<Rightarrow> db" where
  "delete_obj d c key =
     (case c of
        Recipe \<Rightarrow>
          let its = members_of d Ingredients_tbl key;
              d1 = unlink_parent (unlink_parent d Ingredients_tbl key) Tags_tbl key;
              d2 = fold (\<lambda>i x. delete_row (unlink_member x Ingredients_tbl i) IngredientItem i) its d1
          in delete_row d2 Recipe key
      | Category \<Rightarrow> delete_row (unlink_parent d Category_tags_tbl key) Category key
      | Tag \<Rightarrow> delete_row (unlink_member (unlink_member d Tags_tbl key) Category_tags_tbl key) Tag key
      | IngredientItem \<Rightarrow> delete_row (unlink_member d Ingredients_tbl key) IngredientItem key
      | Unit \<Rightarrow> delete_row d Unit key
      | Ingredient \<Rightarrow> delete_row d Ingredient key)"

text \<open>\<^verbatim>\<open>session.delete(item); session.commit()\<close>.\<close>

definition delete_commit :: "session \<Rightarrow> obj \<Rightarrow> (error + unit) \<times> session" where
  "delete_commit s m =
     (case commit s of
        (Inl e, s') \<Rightarrow> (Inl e, s')
      | (Inr ks, s') \<Rightarrow>
          (case eident m of
             None \<Rightarrow> (Inl UnmappedInstanceError, s')
           | Some k \<Rightarrow> (Inr (), s'\<lparr>sdb := delete_obj (sdb s') (ecls m) k\<rparr>)))"

subsection \<open>Loading an entity with what its relationships reach\<close>

definition load_rows :: "db \<Rightarrow> cls \<Rightarrow> pyval list \<Rightarrow> row list" where
  "load_rows d c keys = concat (map (\<lambda>k. case find_row d c k of None \<Rightarrow> [] | Some r \<Rightarrow> [r]) keys)"

definition load_one :: "db \<Rightarrow> cls \<Rightarrow> pyval \<Rightarrow> pyval" where
  "load_one d c key = (case find_row d c key of None \<Rightarrow> PNone | Some r \<Rightarrow> PObj c r)"

text \<open>
  The entity for a row as serialization reads it: the columns, and under the name of
  each relationship of \<^verbatim>\<open>models.py\<close> the related entities (\<^verbatim>\<open>IngredientItem.ingredient\<close>
  and \<^verbatim>\<open>.unit\<close> by foreign key, the collections through their association tables).
\<close>

definition item_attrs :: "db \<Rightarrow> row \<Rightarrow> (string \<times> pyval) list" where
  "item_attrs d r =
     r @ [(''ingredient'', load_one d Ingredient (col r ''ingredient_id'')),
          (''unit'', load_one d Unit (col r ''unit_id''))]"

definition load_entity :: "db \<Rightarrow> cls \<Rightarrow> row \<Rightarrow> (string \<times> pyval) list" where
  "load_entity d c r =
     (case c of
        Recipe \<Rightarrow>
          r @ [(''ingredients'', PList (map (\<lambda>i. PObj IngredientItem (item_attrs d i))
                  (load_rows d IngredientItem (members_of d Ingredients_tbl (row_id r))))),
               (''tags'', PList (map (PObj Tag)
                  (load_rows d Tag (members_of d Tags_tbl (row_id r)))))]
      | Category \<Rightarrow>
          r @ [(''tags'', PList (map (PObj Tag)
                  (load_rows d Tag (members_of d Category_tags_tbl (row_id r)))))]
      | IngredientItem \<Rightarrow> item_attrs d r
      | _ \<Rightarrow> r)"

text \<open>\<^verbatim>\<open>obj.dictionary\<close> of a loaded instance: \<^verbatim>\<open>get_dictionary()\<close> with its defaults.\<close>

definition dictionary :: "pyenv \<Rightarrow> db \<Rightarrow> obj \<Rightarrow> error + json" where
  "dictionary env d m =
     bindE (get_dictionary env (ecls m) (load_entity d (ecls m) (eattrs m)) 99 [])
       (\<lambda>kvs. Inr (JDict kvs))"

section \<open>The controllers (\<^verbatim>\<open>controllers.py\<close>)\<close>

text \<open>
  The payloads. The schema classes are not part of the sources; a payload is what the
  controllers read of it: the scalar fields by name in declaration order (\<^verbatim>\<open>None\<close> for
  a field that is null or was omitted), and for the nested shapes the list of tag
  payloads (\<^verbatim>\<open>data.tags\<close>) and of ingredient-item payloads (\<^verbatim>\<open>data.ingredients\<close>), each
  item with its own scalar fields, its \<^verbatim>\<open>ingredient\<close> and its \<^verbatim>\<open>unit\<close>.
\<close>

record item_payload =
  i_fields :: "(string \<times> pyval) list"
  i_ingredient :: "(string \<times> pyval) list"
  i_unit :: "(string \<times> pyval) list"

record payload =
  p_fields :: "(string \<times> pyval) list"
  p_tags :: "(string \<times> pyval) list list"
  p_ingredients :: "item_payload list"

definition flat :: "(string \<times> pyval) list \<Rightarrow> payload" where
  "flat fs = \<lparr>p_fields = fs, p_tags = [], p_ingredients = []\<rparr>"

datatype controller =
  TagController | IngredientsController | CategoriesController | UnitsController | RecipesController

text \<open>\<^verbatim>\<open>self.read_schema.Meta.orm_model\<close>.\<close>

fun orm_model :: "controller \<Rightarrow> cls" where
  "orm_model TagController = Tag"
| "orm_model IngredientsController = Ingredient"
| "orm_model CategoriesController = Category"
| "orm_model UnitsController = Unit"
| "orm_model RecipesController = Recipe"

text \<open>\<^verbatim>\<open>data.dict(exclude_none=True)\<close> on the scalar fields.\<close>

definition dict_exclude_none :: "(string \<times> pyval) list \<Rightarrow> (string \<times> pyval) list" where
  "dict_exclude_none fs = filter (\<lambda>kv. snd kv \<noteq> PNone) fs"

text \<open>
  Modelled from the spec: the read shape (\<^verbatim>\<open>chef.schemas\<close>) is not part of the sources.
  \<^verbatim>\<open>read_schema(**d)\<close> is the serialized dictionary \<open>d\<close> itself, and the \<^verbatim>\<open>id\<close> of a read
  shape is the integer its \<^verbatim>\<open>id\<close> entry denotes, \<^verbatim>\<open>None\<close> when the dictionary has none.
\<close>

definition read_id :: "json \<Rightarrow> pyval" where
  "read_id j =
     (case j of
        JDict kvs \<Rightarrow> (case map_of kvs ''id'' of Some (JFloat r) \<Rightarrow> PInt \<lfloor>r\<rfloor> | _ \<Rightarrow> PNone)
      | _ \<Rightarrow> PNone)"

text \<open>
  \<^verbatim>\<open>raise HTTPException(status_code=404, detail=f"{self.read_schema.__class__} id={v} not found")\<close>;
  formatting the value comes first.
\<close>

definition not_found :: "pyenv \<Rightarrow> pyval \<Rightarrow> error + 'a" where
  "not_found env v =
     bindE (py_str env v) (\<lambda>s.
       Inl (HTTPException 404 (schema_class env @ '' id='' @ s @ '' not found'')))"

text \<open>
  A run of \<^verbatim>\<open>setattr(model, attr, value)\<close>. When the model is \<^verbatim>\<open>None\<close> the first one
  raises.
\<close>

fun setattrs :: "obj option \<Rightarrow> (string \<times> pyval) list \<Rightarrow> error + obj option" where
  "setattrs m [] = Inr m"
| "setattrs None (kv # kvs) = Inl (AttributeError (fst kv))"
| "setattrs (Some m) (kv # kvs) = setattrs (Some (setattr m (fst kv) (snd kv))) kvs"

text \<open>\<^verbatim>\<open>Controller._fill_model\<close>, the default merge routine.\<close>

definition Controller_fill_model ::
  "session \<Rightarrow> obj option \<Rightarrow> payload \<Rightarrow> (error + obj option) \<times> session" where
  "Controller_fill_model s model data = (setattrs model (dict_exclude_none (p_fields data)), s)"

text \<open>\<^verbatim>\<open>Controller.get_single\<close>.\<close>

definition Controller_get_single ::
  "pyenv \<Rightarrow> cls \<Rightarrow> session \<Rightarrow> pyval \<Rightarrow> (error + json) \<times> session" where
  "Controller_get_single env c s item_id =
     (case session_get s c item_id of
        None \<Rightarrow> (not_found env item_id, s)
      | Some db_item \<Rightarrow> (dictionary env (sdb s) db_item, s))"

text \<open>\<^verbatim>\<open>Controller.delete_single\<close>.\<close>

definition Controller_delete_single ::
  "pyenv \<Rightarrow> cls \<Rightarrow> session \<Rightarrow> pyval \<Rightarrow> (error + unit) \<times> session" where
  "Controller_delete_single env c s item_id =
     (case session_get s c item_id of
        None \<Rightarrow> (not_found env item_id, s)
      | Some item \<Rightarrow> delete_commit s item)"

text \<open>
  \<^verbatim>\<open>session.add(item); session.commit()\<close> where \<^verbatim>\<open>item\<close> may be \<^verbatim>\<open>None\<close>, which
  \<^verbatim>\<open>session.add\<close> refuses. The result is \<^verbatim>\<open>item.id\<close> after the commit.
\<close>

definition add_and_commit :: "session \<Rightarrow> obj option \<Rightarrow> (error + pyval) \<times> session" where
  "add_and_commit s item =
     (case item of
        None \<Rightarrow> (Inl UnmappedInstanceError, s)
      | Some m \<Rightarrow> add_commit s m)"

text \<open>
  The operations of \<^verbatim>\<open>Controller\<close> that call \<^verbatim>\<open>self._fill_model\<close> take the merge routine of
  the controller at hand as the argument \<open>fill\<close>.
\<close>

type_synonym fill = "session \<Rightarrow> obj option \<Rightarrow> payload \<Rightarrow> (error + obj option) \<times> session"

text \<open>\<^verbatim>\<open>Controller.create\<close>.\<close>

definition Controller_create ::
  "pyenv \<Rightarrow> fill \<Rightarrow> cls \<Rightarrow> session \<Rightarrow> payload \<Rightarrow> (error + json) \<times> session" where
  "Controller_create env fill c s data =
     (case fill s (Some (new_obj c)) data of
        (Inl e, s1) \<Rightarrow> (Inl e, s1)
      | (Inr new_model, s1) \<Rightarrow>
          (case add_and_commit s1 new_model of
             (Inl e, s2) \<Rightarrow> (Inl e, s2)
           | (Inr key, s2) \<Rightarrow> Controller_get_single env c s2 key))"

text \<open>\<^verbatim>\<open>Controller.create_or_update\<close>.\<close>

definition Controller_create_or_update ::
  "pyenv \<Rightarrow> fill \<Rightarrow> cls \<Rightarrow> session \<Rightarrow> payload \<Rightarrow> (error + json) \<times> session" where
  "Controller_create_or_update env fill c s data =
     (let item = (if truthy (col (p_fields data) ''id'')
                  then session_get s c (col (p_fields data) ''id'')
                  else Some (new_obj c))
      in case fill s item data of
           (Inl e, s1) \<Rightarrow> (Inl e, s1)
         | (Inr item', s1) \<Rightarrow>
             (case add_and_commit s1 item' of
                (Inl e, s2) \<Rightarrow> (Inl e, s2)
              | (Inr key, s2) \<Rightarrow>
                  (case session_get s2 c key of
                     None \<Rightarrow> (Inl (AttributeError ''dictionary''), s2)
                   | Some m \<Rightarrow> (dictionary env (sdb s2) m, s2))))"

text \<open>
  \<^verbatim>\<open>Controller.update\<close>. The detail of its 404 formats \<^verbatim>\<open>data.id\<close>, which raises when the
  payload has no such field.
\<close>

definition Controller_update ::
  "pyenv \<Rightarrow> fill \<Rightarrow> cls \<Rightarrow> session \<Rightarrow> pyval \<Rightarrow> payload \<Rightarrow> (error + json) \<times> session" where
  "Controller_update env fill c s item_id data =
     (case session_get s c item_id of
        None \<Rightarrow> (bindE (getattr (p_fields data) ''id'') (not_found env), s)
      | Some item \<Rightarrow>
          (case fill s (Some item) data of
             (Inl e, s1) \<Rightarrow> (Inl e, s1)
           | (Inr item', s1) \<Rightarrow>
               (case add_and_commit s1 item' of
                  (Inl e, s2) \<Rightarrow> (Inl e, s2)
                | (Inr key, s2) \<Rightarrow> Controller_get_single env c s2 key)))"

subsection \<open>\<^verbatim>\<open>IngredientsController\<close>\<close>

text \<open>
  Modelled from the spec: \<^verbatim>\<open>Ingredient.ingredients_items\<close> is declared by no class of
  \<^verbatim>\<open>models.py\<close>; it is every ingredient item that references the ingredient.
  \<^verbatim>\<open>IngredientItem.recipes\<close> is the backref of \<^verbatim>\<open>Recipe.ingredients\<close>.
\<close>

definition ingredients_items :: "db \<Rightarrow> pyval \<Rightarrow> row list" where
  "ingredients_items d key = filter (\<lambda>r. col r ''ingredient_id'' = key) (rows d IngredientItem)"

definition item_recipes :: "db \<Rightarrow> row \<Rightarrow> row list" where
  "item_recipes d item = load_rows d Recipe (parents_of d Ingredients_tbl (row_id item))"

text \<open>\<^verbatim>\<open>', '.join(recipes)\<close>: every element has to be a string.\<close>

fun str_items :: "pyval list \<Rightarrow> error + string list" where
  "str_items [] = Inr []"
| "str_items (PStr t # vs) = bindE (str_items vs) (\<lambda>ts. Inr (t # ts))"
| "str_items (v # vs) = Inl (TypeError ''expected str instance'')"

text \<open>\<^verbatim>\<open>IngredientsController.delete_single\<close>.\<close>

definition Ingredients_delete_single ::
  "pyenv \<Rightarrow> session \<Rightarrow> pyval \<Rightarrow> (error + unit) \<times> session" where
  "Ingredients_delete_single env s item_id =
     (case session_get s Ingredient item_id of
        None \<Rightarrow> (Inl (AttributeError ''ingredients_items''), s)
      | Some ingredient \<Rightarrow>
          let recipes = concat (map (\<lambda>item. map (\<lambda>r. col r ''title'') (item_recipes (sdb s) item))
                                  (ingredients_items (sdb s) item_id))
          in if recipes \<noteq> [] then
               (bindE (str_items recipes) (\<lambda>ts.
                  Inl (HTTPException 400
                    (''Ingredient still attached to some recipes: '' @ join '', '' ts))), s)
             else Controller_delete_single env Ingredient s item_id)"

subsection \<open>\<^verbatim>\<open>CategoriesController\<close>\<close>

text \<open>The first loop of \<^verbatim>\<open>CategoriesController._fill_model\<close>: every tag is resolved by id.\<close>

fun resolve_tags :: "pyenv \<Rightarrow> session \<Rightarrow> (string \<times> pyval) list list \<Rightarrow> error + ent option list" where
  "resolve_tags env s [] = Inr []"
| "resolve_tags env s (tag # rest) =
     bindE (getattr tag ''id'') (\<lambda>tid.
       case session_get s Tag tid of
         None \<Rightarrow> bindE (py_str env tid) (\<lambda>t.
                   Inl (HTTPException 400 (''Tag id='' @ t @ '' not found'')))
       | Some item \<Rightarrow> bindE (resolve_tags env s rest) (\<lambda>items. Inr (Some (as_member item) # items)))"

text \<open>\<^verbatim>\<open>CategoriesController._fill_model\<close>.\<close>

definition Categories_fill_model ::
  "pyenv \<Rightarrow> session \<Rightarrow> obj option \<Rightarrow> payload \<Rightarrow> (error + obj option) \<times> session" where
  "Categories_fill_model env s model data =
     (bindE (resolve_tags env s (p_tags data)) (\<lambda>tags.
      bindE (setattrs model (dict_exclude_none (p_fields data))) (\<lambda>model'.
        case model' of
          None \<Rightarrow> Inl (AttributeError ''tags'')
        | Some m \<Rightarrow> Inr (Some (set_rel m ''tags'' tags)))), s)"

subsection \<open>\<^verbatim>\<open>UnitsController\<close>\<close>

text \<open>\<^verbatim>\<open>session.query(model).filter_by(name=v).first()\<close>.\<close>

definition first_by_name :: "session \<Rightarrow> cls \<Rightarrow> pyval \<Rightarrow> obj option" where
  "first_by_name s c v =
     (case find (\<lambda>r. col r ''name'' = v) (rows (sdb s) c) of
        None \<Rightarrow> None
      | Some r \<Rightarrow> Some \<lparr>ecls = c, eident = Some (row_id r), eattrs = r, orels = []\<rparr>)"

text \<open>\<^verbatim>\<open>UnitsController.create_or_update\<close>.\<close>

definition Units_create_or_update ::
  "pyenv \<Rightarrow> session \<Rightarrow> payload \<Rightarrow> (error + json) \<times> session" where
  "Units_create_or_update env s data =
     (case (if truthy (col (p_fields data) ''id'')
            then Inr (session_get s Unit (col (p_fields data) ''id''))
            else bindE (getattr (p_fields data) ''name'') (\<lambda>name.
                   case first_by_name s Unit name of
                     Some same_name \<Rightarrow> Inr (Some same_name)
                   | None \<Rightarrow> Inr (Some (new_obj Unit)))) of
        Inl e \<Rightarrow> (Inl e, s)
      | Inr item \<Rightarrow>
          (case setattrs item (filter (\<lambda>kv. fst kv \<noteq> ''id'') (p_fields data)) of
             Inl e \<Rightarrow> (Inl e, s)
           | Inr None \<Rightarrow> (Inl UnmappedInstanceError, s)
           | Inr (Some item') \<Rightarrow>
               (case add_commit s item' of
                  (Inl e, s1) \<Rightarrow> (Inl e, s1)
                | (Inr key, s1) \<Rightarrow>
                    (case first_by_name s1 Unit (col (eattrs item') ''name'') of
                       None \<Rightarrow> (Inl (AttributeError ''dictionary''), s1)
                     | Some m \<Rightarrow> (dictionary env (sdb s1) m, s1)))))"

subsection \<open>\<^verbatim>\<open>RecipesController\<close>\<close>

text \<open>
  The first loop of \<^verbatim>\<open>_get_ingredients_and_tags\<close>: a new line item for every
  ingredient item of the input, with the ids of its unit and its ingredient as the two
  upserts return them. Each upsert commits.
\<close>

fun build_items :: "pyenv \<Rightarrow> session \<Rightarrow> item_payload list \<Rightarrow> (error + obj list) \<times> session" where
  "build_items env s [] = (Inr [], s)"
| "build_items env s (ingredient_item # rest) =
     (case construct IngredientItem (i_fields ingredient_item) of
        Inl e \<Rightarrow> (Inl e, s)
      | Inr updated_item \<Rightarrow>
          (case Units_create_or_update env s (flat (i_unit ingredient_item)) of
             (Inl e, s1) \<Rightarrow> (Inl e, s1)
           | (Inr u, s1) \<Rightarrow>
               (case Controller_create_or_update env Controller_fill_model Ingredient s1
                       (flat (i_ingredient ingredient_item)) of
                  (Inl e, s2) \<Rightarrow> (Inl e, s2)
                | (Inr i, s2) \<Rightarrow>
                    (case build_items env s2 rest of
                       (Inl e, s3) \<Rightarrow> (Inl e, s3)
                     | (Inr updated_ingredients, s3) \<Rightarrow>
                         (Inr (setattr (setattr updated_item ''unit_id'' (read_id u))
                                 ''ingredient_id'' (read_id i) # updated_ingredients), s3)))))"

text \<open>
  The second loop: a tag with an id is looked up (and is \<^verbatim>\<open>None\<close> when there is no such
  row), a tag without one is a new instance.
\<close>

fun build_tags :: "session \<Rightarrow> (string \<times> pyval) list list \<Rightarrow> error + ent option list" where
  "build_tags s [] = Inr []"
| "build_tags s (tag # rest) =
     bindE (if truthy (col tag ''id'')
            then Inr (map_option as_member (session_get s Tag (col tag ''id'')))
            else bindE (construct Tag tag) (\<lambda>t. Inr (Some (as_member t)))) (\<lambda>m.
     bindE (build_tags s rest) (\<lambda>updated_tags. Inr (m # updated_tags)))"

text \<open>\<^verbatim>\<open>RecipesController._get_ingredients_and_tags\<close>.\<close>

definition Recipes_get_ingredients_and_tags ::
  "pyenv \<Rightarrow> session \<Rightarrow> payload \<Rightarrow> (error + obj list \<times> ent option list) \<times> session" where
  "Recipes_get_ingredients_and_tags env s data =
     (case build_items env s (p_ingredients data) of
        (Inl e, s1) \<Rightarrow> (Inl e, s1)
      | (Inr updated_ingredients, s1) \<Rightarrow>
          (bindE (build_tags s1 (p_tags data)) (\<lambda>updated_tags.
             Inr (updated_ingredients, updated_tags)), s1))"

text \<open>
  \<^verbatim>\<open>RecipesController._fill_model\<close>. The scalar fields are set first; when the recipe is a
  persistent instance the session holds it from then on, so the commits of the upserts
  that follow write those fields too. A transient recipe joins the session only with
  the \<^verbatim>\<open>session.add\<close> of the caller.
\<close>

definition Recipes_fill_model ::
  "pyenv \<Rightarrow> session \<Rightarrow> obj option \<Rightarrow> payload \<Rightarrow> (error + obj option) \<times> session" where
  "Recipes_fill_model env s model data =
     (case model of
        None \<Rightarrow> (bindE (getattr (p_fields data) ''id'') (not_found env), s)
      | Some m \<Rightarrow>
          let m1 = fold (\<lambda>kv x. setattr x (fst kv) (snd kv)) (dict_exclude_none (p_fields data)) m;
              s0 = (if eident m1 = None then s else session_add s m1)
          in (case Recipes_get_ingredients_and_tags env s0 data of
                (Inl e, s1) \<Rightarrow> (Inl e, s1)
              | (Inr r, s1) \<Rightarrow>
                  (Inr (Some (set_rel (set_rel m1 ''ingredients''
                                         (map (\<lambda>x. Some (as_member x)) (fst r)))
                               ''tags'' (snd r))), s1)))"

subsection \<open>The five controllers\<close>

text \<open>Which \<^verbatim>\<open>_fill_model\<close> a controller inherits or overrides.\<close>

definition fill_model :: "pyenv \<Rightarrow> controller \<Rightarrow> fill" where
  "fill_model env ctl =
     (case ctl of
        CategoriesController \<Rightarrow> Categories_fill_model env
      | RecipesController \<Rightarrow> Recipes_fill_model env
      | _ \<Rightarrow> Controller_fill_model)"

definition get_single :: "pyenv \<Rightarrow> controller \<Rightarrow> session \<Rightarrow> pyval \<Rightarrow> (error + json) \<times> session" where
  "get_single env ctl s item_id = Controller_get_single env (orm_model ctl) s item_id"

definition delete_single ::
  "pyenv \<Rightarrow> controller \<Rightarrow> session \<Rightarrow> pyval \<Rightarrow> (error + unit) \<times> session" where
  "delete_single env ctl s item_id =
     (case ctl of
        IngredientsController \<Rightarrow> Ingredients_delete_single env s item_id
      | _ \<Rightarrow> Controller_delete_single env (orm_model ctl) s item_id)"

definition create :: "pyenv \<Rightarrow> controller \<Rightarrow> session \<Rightarrow> payload \<Rightarrow> (error + json) \<times> session" where
  "create env ctl s data = Controller_create env (fill_model env ctl) (orm_model ctl) s data"

definition update ::
  "pyenv \<Rightarrow> controller \<Rightarrow> session \<Rightarrow> pyval \<Rightarrow> payload \<Rightarrow> (error + json) \<times> session" where
  "update env ctl s item_id data =
     Controller_update env (fill_model env ctl) (orm_model ctl) s item_id data"

text \<open>
  \<^verbatim>\<open>create_or_update\<close>: \<^verbatim>\<open>RecipesController\<close> raises, \<^verbatim>\<open>UnitsController\<close> has its own, the others
  inherit \<^verbatim>\<open>Controller.create_or_update\<close>.
\<close>

definition create_or_update ::
  "pyenv \<Rightarrow> controller \<Rightarrow> session \<Rightarrow> payload \<Rightarrow> (error + json) \<times> session" where
  "create_or_update env ctl s data =
     (case ctl of
        RecipesController \<Rightarrow> (Inl (ValueError ''Not allowed on this controller!''), s)
      | UnitsController \<Rightarrow> Units_create_or_update env s data
      | _ \<Rightarrow> Controller_create_or_update env (fill_model env ctl) (orm_model ctl) s data)"

text \<open>
  A concrete interpreter for the examples below: floats print as their integer part,
  \<^verbatim>\<open>repr\<close> of a string puts it in double quotes, only the string \<^verbatim>\<open>1\<close> parses as a float,
  a set is iterated in insertion order, and the schema metaclass prints as
  \<^verbatim>\<open>ModelMetaclass\<close>.
\<close>

definition env0 :: pyenv where
  "env0 = \<lparr>float_repr = (\<lambda>r. str_int \<lfloor>r\<rfloor> @ ''.0''),
           str_repr = (\<lambda>t. [CHR 0x22] @ t @ [CHR 0x22]),
           float_of_str = (\<lambda>t. if t = ''1'' then Some 1 else None),
           set_iter = (\<lambda>xs. xs),
           schema_class = ''ModelMetaclass''\<rparr>"

text \<open>The empty database and a session on a given database with nothing pending.\<close>

definition empty_db :: db where
  "empty_db = \<lparr>rows = (\<lambda>_. []), links = (\<lambda>_. [])\<rparr>"

definition session_on :: "db \<Rightarrow> session" where
  "session_on d = \<lparr>sdb = d, spending = []\<rparr>"

text \<open>
  An example database: the unit \<^verbatim>\<open>g\<close>; the ingredients \<^verbatim>\<open>salt\<close> and \<^verbatim>\<open>pepper\<close>; the recipe
  \<^verbatim>\<open>Soup\<close> with one ingredient item (salt, in grams) and the tag \<^verbatim>\<open>veg\<close>; a category with the
  same tag.
\<close>

definition soup_db :: db where
  "soup_db =
     \<lparr>rows = (\<lambda>c. case c of
          Unit \<Rightarrow> [[(''id'', PInt 1), (''name'', PStr ''g''), (''grams'', PInt 0)]]
        | Tag \<Rightarrow> [[(''id'', PInt 1), (''name'', PStr ''veg'')]]
        | Ingredient \<Rightarrow>
            [[(''id'', PInt 3), (''name'', PStr ''salt''), (''is_liquid'', PBool False)],
             [(''id'', PInt 4), (''name'', PStr ''pepper''), (''is_liquid'', PBool False)]]
        | IngredientItem \<Rightarrow>
            [[(''id'', PInt 10), (''ingredient_id'', PInt 3), (''amount'', PInt 2),
              (''unit_id'', PInt 1), (''note'', PNone), (''exclude'', PBool False)]]
        | Category \<Rightarrow> [[(''id'', PInt 1), (''name'', PStr ''c'')]]
        | Recipe \<Rightarrow> [[(''id'', PInt 1), (''title'', PStr ''Soup''), (''portions'', PInt 4)]]),
      links = (\<lambda>t. case t of
          Ingredients_tbl \<Rightarrow> [(PInt 1, PInt 10)]
        | Tags_tbl \<Rightarrow> [(PInt 1, PInt 1)]
        | Category_tags_tbl \<Rightarrow> [(PInt 1, PInt 1)])\<rparr>"

text \<open>The definitions an evaluation on a concrete input unfolds.\<close>

lemmas eval_defs =
  update_def Controller_update_def fill_model_def Controller_fill_model_def
  create_or_update_def Controller_create_or_update_def Units_create_or_update_def
  create_def Controller_create_def delete_single_def Controller_delete_single_def
  Ingredients_delete_single_def get_single_def Controller_get_single_def
  Categories_fill_model_def Recipes_fill_model_def Recipes_get_ingredients_and_tags_def
  session_get_def find_row_def first_by_name_def session_on_def empty_db_def flat_def
  row_id_def col_def getattr_def not_found_def dict_exclude_none_def
  add_and_commit_def add_commit_def commit_def session_add_def flush_obj_def
  update_row_def insert_row_def check_row_def sync_links_def delete_commit_def
  delete_obj_def delete_row_def unlink_parent_def unlink_member_def members_of_def
  parents_of_def load_rows_def load_one_def item_attrs_def load_entity_def dictionary_def
  get_attributes_def float_of_int_def bit_length.simps env0_def repr_fmt_def
  setattr_def set_rel_def new_obj_def construct_def as_member_def relationship_def
  column_default_def next_id_def read_id_def ingredients_items_def item_recipes_def
  str_int_def str_nat.simps soup_db_def Let_def

section \<open>Serialization: depth and coercion\<close>

lemma sequence_map_Inr: "sequence (map Inr ys) = Inr ys"
  by (induction ys) auto

lemma sequence_InrD: "sequence xs = Inr ys \<Longrightarrow> xs = map Inr ys"
  by (induction xs arbitrary: ys) (auto split: sum.splits)

lemma sequence_Inr_iff: "sequence xs = Inr ys \<longleftrightarrow> xs = map Inr ys"
  using sequence_map_Inr sequence_InrD by metis

lemma get_attributes_from_map_of:
  "map_of (get_attributes_from attrs ex as) k =
     (if k \<in> set as \<and> k \<notin> set ex then map_of attrs k else None)"
  by (induction as) (auto split: option.splits)

lemma map_of_dictified:
  assumes "map (\<lambda>kv. bindE (f (snd kv)) (\<lambda>j. Inr (fst kv, j))) kvs = map Inr d"
    and "map_of kvs k = Some v"
  shows "\<exists>j. f v = Inr j \<and> map_of d k = Some j"
  using assms
proof (induction kvs arbitrary: d)
  case Nil
  then show ?case by simp
next
  case (Cons kv kvs)
  then obtain x d' where d: "d = x # d'" by (cases d) auto
  with Cons.prems obtain j where j: "f (snd kv) = Inr j" "x = (fst kv, j)"
    by (cases "f (snd kv)") auto
  show ?case
  proof (cases "fst kv = k")
    case True
    with Cons.prems(2) have "snd kv = v" by (cases kv) auto
    with j d True show ?thesis by auto
  next
    case False
    with Cons.prems(2) have "map_of kvs k = Some v" by (cases kv) auto
    moreover from Cons.prems(1) d
    have "map (\<lambda>kv. bindE (f (snd kv)) (\<lambda>j. Inr (fst kv, j))) kvs = map Inr d'"
      by simp
    ultimately obtain j' where "f v = Inr j'" "map_of d' k = Some j'"
      using Cons.IH by blast
    with d j False show ?thesis by auto
  qed
qed

text \<open>
  A field that \<^verbatim>\<open>__items__\<close> names and the entity has is serialized by \<^verbatim>\<open>_dictify\<close> at the
  depth \<^verbatim>\<open>get_dictionary\<close> was called with, under its own name.
\<close>

lemma get_dictionary_field:
  assumes "get_dictionary env c attrs depth [] = Inr d"
    and "k \<in> set (items c)" and "map_of attrs k = Some v"
  shows "\<exists>j. dictify env v depth = Inr j \<and> map_of d k = Some j"
proof -
  have "map_of (get_attributes c attrs []) k = Some v"
    using assms(2,3) by (simp add: get_attributes_def get_attributes_from_map_of)
  moreover have "map (\<lambda>kv. bindE (dictify env (snd kv) depth) (\<lambda>j. Inr (fst kv, j)))
      (get_attributes c attrs []) = map Inr d"
    using assms(1) by (simp add: sequence_Inr_iff)
  ultimately show ?thesis by (rule map_of_dictified[rotated])
qed

text \<open>
  C3. In the serialization of an entity, a public field that holds a list is rendered
  by depth: when the depth at the field is greater than 1, the entry is the list of the
  elements serialized at depth - 1; otherwise it is a list of strings, the display
  string of each element.
\<close>

theorem collection_field_by_depth:
  assumes "get_dictionary env c attrs depth [] = Inr d"
    and "k \<in> set (items c)" and "map_of attrs k = Some (PList xs)"
  shows "if depth > 1
         then \<exists>js. map_of d k = Some (JList js) \<and>
                map (\<lambda>x. dictify env x (depth - 1)) xs = map Inr js
         else \<exists>ss. map_of d k = Some (JList (map JStr ss)) \<and>
                map (py_str env) xs = map Inr ss"
proof -
  from get_dictionary_field[OF assms] obtain j where
    j: "dictify env (PList xs) depth = Inr j" "map_of d k = Some j" by blast
  show ?thesis
  proof (cases "depth > 1")
    case True
    with j(1) obtain js where
      "sequence (map (\<lambda>x. dictify env x (depth - 1)) xs) = Inr js" "j = JList js"
      by (auto simp: bindE_def split: sum.splits)
    with j(2) True show ?thesis by (auto simp: sequence_Inr_iff)
  next
    case False
    with j(1) obtain ss where
      "sequence (map (py_str env) xs) = Inr ss" "j = JList (map JStr ss)"
      by (auto simp: bindE_def split: sum.splits)
    with j(2) False show ?thesis by (auto simp: sequence_Inr_iff)
  qed
qed

text \<open>
  A category with one tag, serialized at depth 0: the tag is its display string.
\<close>

theorem collection_field_by_depth_witness:
  "get_dictionary env0 Category
     [(''id'', PInt 1), (''name'', PStr ''c''),
      (''tags'', PList [PObj Tag [(''id'', PInt 1), (''name'', PStr ''veg'')]])] 0 []
     = Inr [(''id'', JFloat 1), (''name'', JStr ''c''), (''tags'', JList [JStr ''<Tag (name=veg)>''])]
   \<and> (\<exists>ss. map_of [(''id'', JFloat 1), (''name'', JStr ''c''),
                    (''tags'', JList [JStr ''<Tag (name=veg)>''])] ''tags''
              = Some (JList (map JStr ss))
            \<and> map (py_str env0) [PObj Tag [(''id'', PInt 1), (''name'', PStr ''veg'')]] = map Inr ss)"
proof -
  let ?attrs = "[(''id'', PInt 1), (''name'', PStr ''c''),
      (''tags'', PList [PObj Tag [(''id'', PInt 1), (''name'', PStr ''veg'')]])]"
  let ?d = "[(''id'', JFloat 1), (''name'', JStr ''c''), (''tags'', JList [JStr ''<Tag (name=veg)>''])]"
  have h1: "get_dictionary env0 Category ?attrs 0 [] = Inr ?d"
    by (simp add: get_attributes_def float_of_int_def env0_def bit_length.simps repr_fmt_def)
  have h2: "''tags'' \<in> set (items Category)" by simp
  have h3: "map_of ?attrs ''tags'' = Some (PList [PObj Tag [(''id'', PInt 1), (''name'', PStr ''veg'')]])"
    by simp
  show ?thesis using collection_field_by_depth[OF h1 h2 h3] h1 by simp
qed

text \<open>
  C10. In the serialization of an entity, a public field that holds a boolean is the
  float 1.0 or 0.0.
\<close>

theorem boolean_field_is_float:
  assumes "get_dictionary env c attrs depth [] = Inr d"
    and "k \<in> set (items c)" and "map_of attrs k = Some (PBool b)"
  shows "map_of d k = Some (JFloat (if b then 1 else 0))"
  using get_dictionary_field[OF assms] by auto

theorem boolean_field_is_float_witness:
  "get_dictionary env0 Ingredient
     [(''id'', PInt 3), (''name'', PStr ''salt''), (''is_liquid'', PBool True)] 99 []
     = Inr [(''id'', JFloat 3), (''name'', JStr ''salt''), (''is_liquid'', JFloat 1)]
   \<and> map_of [(''id'', JFloat 3), (''name'', JStr ''salt''), (''is_liquid'', JFloat 1)] ''is_liquid''
     = Some (JFloat (if True then 1 else 0))"
proof -
  let ?attrs = "[(''id'', PInt 3), (''name'', PStr ''salt''), (''is_liquid'', PBool True)]"
  have h1: "get_dictionary env0 Ingredient ?attrs 99 []
      = Inr [(''id'', JFloat 3), (''name'', JStr ''salt''), (''is_liquid'', JFloat 1)]"
    by (simp add: get_attributes_def float_of_int_def env0_def bit_length.simps)
  have h2: "''is_liquid'' \<in> set (items Ingredient)" by simp
  have h3: "map_of ?attrs ''is_liquid'' = Some (PBool True)" by simp
  show ?thesis using boolean_field_is_float[OF h1 h2 h3] h1 by simp
qed

section \<open>The disabled entry point\<close>

text \<open>
  C4. \<^verbatim>\<open>create_or_update\<close> on the recipe controller raises on every input and leaves the
  session as it was.
\<close>

theorem recipes_create_or_update_disabled:
  "create_or_update env RecipesController s data =
     (Inl (ValueError ''Not allowed on this controller!''), s)"
  by (simp add: create_or_update_def)

section \<open>Addressing a missing id\<close>

text \<open>
  C6. \<^verbatim>\<open>Controller.update\<close> on an id that does not resolve raises the 404, and the session
  stays as it was, but the detail names \<^verbatim>\<open>data.id\<close>, the id of the payload, where
  \<^verbatim>\<open>get_single\<close> and \<^verbatim>\<open>delete_single\<close> name \<^verbatim>\<open>item_id\<close>: addressing tag 7 with a payload whose
  id is 3 reports \<^verbatim>\<open>id=3\<close>. The resource in the detail is the schema's metaclass for
  every controller.
\<close>

theorem update_not_found_formats_payload_id:
  "update env TagController (session_on empty_db) (PInt 7)
     (flat [(''id'', PInt 3), (''name'', PStr ''x'')])
   = (Inl (HTTPException 404 (schema_class env @ '' id=3 not found'')), session_on empty_db)"
  by (simp add: update_def Controller_update_def session_get_def find_row_def session_on_def
      empty_db_def flat_def getattr_def not_found_def str_int_def str_nat.simps)


section \<open>\<^verbatim>\<open>create_or_update\<close> with an id that does not resolve\<close>

text \<open>
  With an id that has no row, \<^verbatim>\<open>session.get\<close> gives \<^verbatim>\<open>None\<close> and the merge routine sets
  attributes on it: the call raises \<^verbatim>\<open>AttributeError\<close> and nothing is created.
\<close>

lemma create_or_update_unresolved_id_eval:
  "create_or_update env0 TagController (session_on empty_db)
      (flat [(''id'', PInt 5), (''name'', PStr ''x'')])
     = (Inl (AttributeError ''id''), session_on empty_db)
   \<and> create_or_update env0 UnitsController (session_on empty_db)
      (flat [(''id'', PInt 5), (''name'', PStr ''x'')])
     = (Inl (AttributeError ''name''), session_on empty_db)"
  by (simp add: create_or_update_def Controller_create_or_update_def Units_create_or_update_def
      fill_model_def Controller_fill_model_def session_get_def find_row_def session_on_def
      empty_db_def flat_def col_def dict_exclude_none_def)

lemma setattrs_None:
  "setattrs None kvs = (case kvs of [] \<Rightarrow> Inr None | kv # _ \<Rightarrow> Inl (AttributeError (fst kv)))"
  by (cases kvs) auto

lemma col_in_dict_exclude_none:
  "col fs a \<noteq> PNone \<Longrightarrow> dict_exclude_none fs \<noteq> []"
proof -
  assume "col fs a \<noteq> PNone"
  then obtain v where "map_of fs a = Some v" "v \<noteq> PNone"
    by (auto simp: col_def split: option.splits)
  then have "(a, v) \<in> set fs" by (auto dest: map_of_SomeD)
  with \<open>v \<noteq> PNone\<close> have "(a, v) \<in> set (dict_exclude_none fs)"
    by (auto simp: dict_exclude_none_def)
  then show ?thesis by auto
qed

lemma truthy_not_None: "truthy v \<Longrightarrow> v \<noteq> PNone"
  by auto

text \<open>
  C8. When \<^verbatim>\<open>create_or_update\<close> of a controller with the default
  merge routine, or of the units controller, receives a truthy id that does not
  resolve, the call raises an error that is not the 404 (\<^verbatim>\<open>AttributeError\<close> from
  \<^verbatim>\<open>setattr\<close> on \<^verbatim>\<open>None\<close>, or the error of \<^verbatim>\<open>session.add(None)\<close> when the payload has no
  other field) and the session is as before: no entity is created.
\<close>

theorem create_or_update_unresolved_id:
  assumes "truthy (col (p_fields data) ''id'')"
    and "session_get s (orm_model ctl) (col (p_fields data) ''id'') = None"
    and "ctl \<in> {TagController, IngredientsController, UnitsController}"
  shows "\<exists>e. create_or_update env ctl s data = (Inl e, s)
           \<and> (e = UnmappedInstanceError \<or> (\<exists>a. e = AttributeError a))"
proof -
  from assms(1) have ne: "dict_exclude_none (p_fields data) \<noteq> []"
    by (intro col_in_dict_exclude_none[of _ "''id''"] truthy_not_None)
  consider "ctl = TagController" | "ctl = IngredientsController" | "ctl = UnitsController"
    using assms(3) by auto
  then show ?thesis
  proof cases
    case 1
    with assms ne show ?thesis
      by (auto simp: create_or_update_def Controller_create_or_update_def fill_model_def
          Controller_fill_model_def setattrs_None split: list.splits)
  next
    case 2
    with assms ne show ?thesis
      by (auto simp: create_or_update_def Controller_create_or_update_def fill_model_def
          Controller_fill_model_def setattrs_None split: list.splits)
  next
    case 3
    with assms show ?thesis
      by (auto simp: create_or_update_def Units_create_or_update_def setattrs_None
          split: list.splits)
  qed
qed

theorem create_or_update_unresolved_id_witness:
  "\<exists>e. create_or_update env0 IngredientsController (session_on empty_db)
          (flat [(''id'', PInt 5), (''name'', PStr ''salt'')]) = (Inl e, session_on empty_db)
        \<and> (e = UnmappedInstanceError \<or> (\<exists>a. e = AttributeError a))"
proof -
  let ?data = "flat [(''id'', PInt 5), (''name'', PStr ''salt'')]"
  have h1: "truthy (col (p_fields ?data) ''id'')" by (simp add: flat_def col_def)
  have h2: "session_get (session_on empty_db) (orm_model IngredientsController)
      (col (p_fields ?data) ''id'') = None"
    by (simp add: session_get_def find_row_def session_on_def empty_db_def)
  have h3: "IngredientsController \<in> {TagController, IngredientsController, UnitsController}" by simp
  show ?thesis using create_or_update_unresolved_id[OF h1 h2 h3] .
qed

text \<open>
  The same on the path of \<^verbatim>\<open>_get_ingredients_and_tags\<close>, whose docstring reads ``Load (or
  create and load)'': creating a recipe with a line item whose ingredient carries the
  id 5, which no row has, raises the \<^verbatim>\<open>AttributeError\<close>, and no ingredient is created.
\<close>

lemma recipe_create_unresolved_ingredient_eval:
  "(case create env0 RecipesController (session_on soup_db)
      \<lparr>p_fields = [(''title'', PStr ''Stew'')], p_tags = [],
       p_ingredients = [\<lparr>i_fields = [],
                         i_ingredient = [(''id'', PInt 5), (''name'', PStr ''salt'')],
                         i_unit = [(''name'', PStr ''g'')]\<rparr>]\<rparr> of
      (r, t) \<Rightarrow> r = Inl (AttributeError ''id'')
        \<and> rows (sdb t) Ingredient = rows soup_db Ingredient
        \<and> rows (sdb t) Recipe = rows soup_db Recipe)"
  by (simp add: eval_defs)

section \<open>Category tag validation\<close>

lemma resolve_tags_unresolved:
  assumes "\<forall>tag \<in> set tags. \<exists>i. map_of tag ''id'' = Some (PInt i)"
    and "\<exists>tag \<in> set tags. session_get s Tag (col tag ''id'') = None"
  shows "\<exists>i. (\<exists>tag \<in> set tags. map_of tag ''id'' = Some (PInt i) \<and> session_get s Tag (PInt i) = None)
           \<and> resolve_tags env s tags
               = Inl (HTTPException 400 (''Tag id='' @ str_int i @ '' not found''))"
  using assms
proof (induction tags)
  case Nil
  then show ?case by simp
next
  case (Cons tag tags)
  from Cons.prems(1) obtain i where i: "map_of tag ''id'' = Some (PInt i)" by auto
  show ?case
  proof (cases "session_get s Tag (PInt i)")
    case None
    with i show ?thesis by (auto simp: getattr_def)
  next
    case (Some item)
    with i Cons.prems(2) have "\<exists>tag \<in> set tags. session_get s Tag (col tag ''id'') = None"
      by (auto simp: col_def)
    with Cons.IH Cons.prems(1) obtain j where
      j: "\<exists>tag \<in> set tags. map_of tag ''id'' = Some (PInt j) \<and> session_get s Tag (PInt j) = None"
         "resolve_tags env s tags = Inl (HTTPException 400 (''Tag id='' @ str_int j @ '' not found''))"
      by auto
    with i Some show ?thesis by (auto simp: getattr_def)
  qed
qed

text \<open>
  C9. Updating an existing category with tags that all carry an integer id, one of
  which does not resolve, raises the 400 with the detail \<^verbatim>\<open>Tag id={id} not found\<close> for
  such an id, and the session is exactly as before the call.
\<close>

theorem category_update_unresolved_tag:
  assumes "session_get s Category item_id \<noteq> None"
    and "\<forall>tag \<in> set (p_tags data). \<exists>i. map_of tag ''id'' = Some (PInt i)"
    and "\<exists>tag \<in> set (p_tags data). session_get s Tag (col tag ''id'') = None"
  shows "\<exists>i. (\<exists>tag \<in> set (p_tags data).
                 map_of tag ''id'' = Some (PInt i) \<and> session_get s Tag (PInt i) = None)
           \<and> update env CategoriesController s item_id data
               = (Inl (HTTPException 400 (''Tag id='' @ str_int i @ '' not found'')), s)"
proof -
  from resolve_tags_unresolved[OF assms(2,3), of env] obtain i where
    i: "\<exists>tag \<in> set (p_tags data). map_of tag ''id'' = Some (PInt i) \<and> session_get s Tag (PInt i) = None"
       "resolve_tags env s (p_tags data)
          = Inl (HTTPException 400 (''Tag id='' @ str_int i @ '' not found''))"
    by blast
  from assms(1) obtain item where "session_get s Category item_id = Some item" by auto
  with i(2) have "update env CategoriesController s item_id data
      = (Inl (HTTPException 400 (''Tag id='' @ str_int i @ '' not found'')), s)"
    by (simp add: update_def Controller_update_def fill_model_def Categories_fill_model_def)
  with i(1) show ?thesis by blast
qed

theorem category_update_unresolved_tag_witness:
  "update env0 CategoriesController
     (session_on \<lparr>rows = (\<lambda>c. if c = Category then [[(''id'', PInt 1), (''name'', PStr ''c'')]]
            else if c = Tag then [[(''id'', PInt 1), (''name'', PStr ''veg'')]] else []),
       links = (\<lambda>t. [])\<rparr>) (PInt 1)
     \<lparr>p_fields = [(''name'', PStr ''d'')], p_tags = [[(''id'', PInt 1)], [(''id'', PInt 9)]],
      p_ingredients = []\<rparr>
   = (Inl (HTTPException 400 ''Tag id=9 not found''),
      session_on \<lparr>rows = (\<lambda>c. if c = Category then [[(''id'', PInt 1), (''name'', PStr ''c'')]]
            else if c = Tag then [[(''id'', PInt 1), (''name'', PStr ''veg'')]] else []),
       links = (\<lambda>t. [])\<rparr>)"
proof -
  let ?s = "session_on \<lparr>rows = (\<lambda>c. if c = Category then [[(''id'', PInt 1), (''name'', PStr ''c'')]]
            else if c = Tag then [[(''id'', PInt 1), (''name'', PStr ''veg'')]] else []),
       links = (\<lambda>t. [])\<rparr>"
  let ?data = "\<lparr>p_fields = [(''name'', PStr ''d'')], p_tags = [[(''id'', PInt 1)], [(''id'', PInt 9)]],
      p_ingredients = []\<rparr>"
  have h1: "session_get ?s Category (PInt 1) \<noteq> None"
    by (simp add: session_get_def find_row_def session_on_def row_id_def col_def)
  have h2: "\<forall>tag \<in> set (p_tags ?data). \<exists>i. map_of tag ''id'' = Some (PInt i)" by simp
  have h3: "\<exists>tag \<in> set (p_tags ?data). session_get ?s Tag (col tag ''id'') = None"
    by (simp add: session_get_def find_row_def session_on_def row_id_def col_def)
  have t1: "session_get ?s Tag (PInt 1) \<noteq> None"
    by (simp add: session_get_def find_row_def session_on_def row_id_def col_def)
  from category_update_unresolved_tag[OF h1 h2 h3, of env0] obtain i where
    i: "\<exists>tag \<in> set (p_tags ?data). map_of tag ''id'' = Some (PInt i) \<and> session_get ?s Tag (PInt i) = None"
    and u: "update env0 CategoriesController ?s (PInt 1) ?data
           = (Inl (HTTPException 400 (''Tag id='' @ str_int i @ '' not found'')), ?s)"
    by blast
  from i t1 have "i = 9" by auto
  with u show ?thesis by (simp add: str_int_def str_nat.simps)
qed

section \<open>The default merge routine\<close>

lemma setattrs_Some:
  "setattrs (Some m) kvs = Inr (Some (fold (\<lambda>kv x. setattr x (fst kv) (snd kv)) kvs m))"
  by (induction kvs arbitrary: m) auto

lemma col_update: "col (AList.update a v al) b = (if a = b then v else col al b)"
  by (simp add: col_def update_conv')

lemma col_fold_setattr:
  "distinct (map fst kvs) \<Longrightarrow>
   col (eattrs (fold (\<lambda>kv x. setattr x (fst kv) (snd kv)) kvs m)) a =
     (case map_of kvs a of Some v \<Rightarrow> v | None \<Rightarrow> col (eattrs m) a)"
proof (induction kvs arbitrary: m)
  case Nil
  then show ?case by simp
next
  case (Cons kv kvs)
  then have "map_of kvs (fst kv) = None" by (cases kv) (auto simp: map_of_eq_None_iff)
  with Cons show ?case
    by (cases kv) (auto simp: setattr_def col_update split: option.splits)
qed

lemma fold_setattr_frame [simp]:
  "ecls (fold (\<lambda>kv x. setattr x (fst kv) (snd kv)) kvs m) = ecls m"
  "eident (fold (\<lambda>kv x. setattr x (fst kv) (snd kv)) kvs m) = eident m"
  "orels (fold (\<lambda>kv x. setattr x (fst kv) (snd kv)) kvs m) = orels m"
  by (induction kvs arbitrary: m) (auto simp: setattr_def)

lemma map_of_dict_exclude_none:
  "distinct (map fst fs) \<Longrightarrow>
   map_of (dict_exclude_none fs) a =
     (case map_of fs a of Some v \<Rightarrow> if v = PNone then None else Some v | None \<Rightarrow> None)"
  unfolding dict_exclude_none_def
  by (induction fs) (auto split: option.splits simp: map_of_eq_None_iff image_iff)

lemma distinct_dict_exclude_none:
  "distinct (map fst fs) \<Longrightarrow> distinct (map fst (dict_exclude_none fs))"
  unfolding dict_exclude_none_def by (simp add: distinct_map_filter)

text \<open>The default merge routine on an instance, attribute by attribute.\<close>

lemma default_merge_col:
  assumes "distinct (map fst fs)"
  shows "col (eattrs (fold (\<lambda>kv x. setattr x (fst kv) (snd kv)) (dict_exclude_none fs) m)) a =
           (if col fs a = PNone then col (eattrs m) a else col fs a)"
proof -
  have "col (eattrs (fold (\<lambda>kv x. setattr x (fst kv) (snd kv)) (dict_exclude_none fs) m)) a =
      (case map_of (dict_exclude_none fs) a of Some v \<Rightarrow> v | None \<Rightarrow> col (eattrs m) a)"
    by (rule col_fold_setattr[OF distinct_dict_exclude_none[OF assms]])
  also have "\<dots> = (if col fs a = PNone then col (eattrs m) a else col fs a)"
    by (simp add: map_of_dict_exclude_none[OF assms] col_def[of fs] split: option.splits)
  finally show ?thesis .
qed

lemma find_unique:
  "\<lbrakk>\<exists>x \<in> set xs. P x; \<forall>x \<in> set xs. P x \<longrightarrow> x = r\<rbrakk> \<Longrightarrow> find P xs = Some r"
  by (induction xs) auto

lemma find_row_SomeD:
  "find_row d c key = Some r \<Longrightarrow> key \<noteq> PNone \<and> r \<in> set (rows d c) \<and> row_id r = key"
  by (auto simp: find_row_def find_Some_iff split: if_splits)

lemma add_commit_empty:
  "spending s = [] \<Longrightarrow>
   add_commit s m =
     (case flush_obj (sdb s) m of
        Inl e \<Rightarrow> (Inl e, session_add s m)
      | Inr dk \<Rightarrow> (Inr (snd dk), \<lparr>sdb = fst dk, spending = []\<rparr>))"
  by (auto simp: add_commit_def commit_def session_add_def bindE_def split: sum.splits)

lemma col_map_columns:
  "a \<in> set cs \<Longrightarrow> col (map (\<lambda>a. (a, f a)) cs) a = f a"
  by (induction cs) (auto simp: col_def)

lemma id_in_columns [simp]: "''id'' \<in> set (columns c)"
  by (cases c) auto

text \<open>What a successful UPDATE leaves in the table.\<close>

lemma update_row_result:
  assumes "update_row d c key attrs = Inr (d', k)"
  shows "k = col attrs ''id''" and "links d' = links d"
    and "\<And>c'. c' \<noteq> c \<Longrightarrow> rows d' c' = rows d c'"
    and "rows d' c = map (\<lambda>x. if row_id x = key then map (\<lambda>a. (a, col attrs a)) (columns c) else x) (rows d c)"
    and "k \<noteq> PNone \<Longrightarrow> find_row d' c k = Some (map (\<lambda>a. (a, col attrs a)) (columns c))"
proof -
  let ?r = "map (\<lambda>a. (a, col attrs a)) (columns c)"
  from assms obtain old where old: "find_row d c key = Some old"
    by (auto simp: update_row_def split: option.splits)
  from assms old have chk: "check_row c (filter (\<lambda>x. row_id x \<noteq> key) (rows d c)) ?r = Inr ()"
    and d': "d' = d\<lparr>rows := (rows d)(c := map (\<lambda>x. if row_id x = key then ?r else x) (rows d c))\<rparr>"
    and k: "k = row_id ?r"
    by (auto simp: update_row_def Let_def bindE_def split: sum.splits)
  have rid: "row_id ?r = col attrs ''id''" by (simp add: row_id_def col_map_columns)
  from chk have pk: "\<forall>x \<in> set (rows d c). row_id x \<noteq> key \<longrightarrow> row_id x \<noteq> row_id ?r"
    by (auto simp: check_row_def split: if_splits)
  from old have oldin: "old \<in> set (rows d c)" "row_id old = key" by (auto dest: find_row_SomeD)
  have "find (\<lambda>x. row_id x = row_id ?r) (map (\<lambda>x. if row_id x = key then ?r else x) (rows d c)) = Some ?r"
  proof (rule find_unique)
    show "\<exists>x\<in>set (map (\<lambda>x. if row_id x = key then ?r else x) (rows d c)). row_id x = row_id ?r"
      using oldin by force
    show "\<forall>x\<in>set (map (\<lambda>x. if row_id x = key then ?r else x) (rows d c)). row_id x = row_id ?r \<longrightarrow> x = ?r"
      using pk by auto
  qed
  then have fr: "k \<noteq> PNone \<Longrightarrow> find_row d' c k = Some ?r"
    by (simp add: find_row_def d' k)
  show "k = col attrs ''id''" using k rid by simp
  show "links d' = links d" by (simp add: d')
  show "\<And>c'. c' \<noteq> c \<Longrightarrow> rows d' c' = rows d c'" by (simp add: d')
  show "rows d' c = map (\<lambda>x. if row_id x = key then ?r else x) (rows d c)" by (simp add: d')
  show "k \<noteq> PNone \<Longrightarrow> find_row d' c k = Some ?r" by (rule fr)
qed

text \<open>
  C7. Under the default merge routine, a successful update of an existing entity
  leaves a row that holds, in every column, the value of the input where the input has
  a non-null value for it and the value of the row before otherwise. (The row is found
  under the id of the input when the input carries one: \<^verbatim>\<open>id\<close> is a field like the
  others.)
\<close>

theorem default_merge_partial_update:
  assumes "ctl \<in> {TagController, IngredientsController, UnitsController}"
    and "spending s = []"
    and "distinct (map fst (p_fields data))"
    and "update env ctl s item_id data = (Inr r, s')"
  shows "\<exists>old new.
           find_row (sdb s) (orm_model ctl) item_id = Some old
         \<and> find_row (sdb s') (orm_model ctl)
             (if col (p_fields data) ''id'' = PNone then item_id else col (p_fields data) ''id'')
             = Some new
         \<and> (\<forall>a \<in> set (columns (orm_model ctl)).
               col new a = (if col (p_fields data) a = PNone then col old a
                            else col (p_fields data) a))"
proof -
  let ?c = "orm_model ctl"
  let ?fs = "p_fields data"
  from assms(1) have fill: "fill_model env ctl = Controller_fill_model"
    by (auto simp: fill_model_def)
  from assms(4) obtain item where item: "session_get s ?c item_id = Some item"
    by (auto simp: update_def Controller_update_def bindE_def not_found_def
        split: option.splits sum.splits)
  then obtain old where old: "find_row (sdb s) ?c item_id = Some old"
    and it: "item = \<lparr>ecls = ?c, eident = Some item_id, eattrs = old, orels = []\<rparr>"
    by (auto simp: session_get_def split: option.splits)
  let ?m = "fold (\<lambda>kv x. setattr x (fst kv) (snd kv)) (dict_exclude_none ?fs) item"
  from assms(4) item fill assms(2) obtain dk where
    fl: "flush_obj (sdb s) ?m = Inr dk" and
    gs: "Controller_get_single env ?c \<lparr>sdb = fst dk, spending = []\<rparr> (snd dk) = (Inr r, s')"
    by (auto simp: update_def Controller_update_def Controller_fill_model_def setattrs_Some
        add_and_commit_def add_commit_empty split: sum.splits prod.splits)
  from gs have s': "s' = \<lparr>sdb = fst dk, spending = []\<rparr>"
    by (auto simp: Controller_get_single_def split: option.splits)
  from fl it have up: "update_row (sdb s) ?c item_id (eattrs ?m) = Inr dk"
    by (auto simp: flush_obj_def bindE_def split: sum.splits)
  obtain d' k where dk: "dk = (d', k)" by (cases dk)
  note res = update_row_result[OF up[unfolded dk]]
  have cm: "\<And>a. col (eattrs ?m) a = (if col ?fs a = PNone then col old a else col ?fs a)"
    using default_merge_col[OF assms(3), of item] it by simp
  from old have "item_id \<noteq> PNone" "row_id old = item_id" by (auto dest: find_row_SomeD)
  then have "col old ''id'' = item_id" by (simp add: row_id_def)
  with res(1) cm[of "''id''"] \<open>item_id \<noteq> PNone\<close>
  have key: "k = (if col ?fs ''id'' = PNone then item_id else col ?fs ''id'')" "k \<noteq> PNone"
    by simp_all
  let ?new = "map (\<lambda>a. (a, col (eattrs ?m) a)) (columns ?c)"
  from res(5)[OF key(2)] have f: "find_row (sdb s') ?c k = Some ?new"
    by (simp add: s' dk)
  have g: "\<forall>a \<in> set (columns ?c). col ?new a = (if col ?fs a = PNone then col old a else col ?fs a)"
    by (simp add: col_map_columns cm)
  show ?thesis
    by (rule exI[of _ old], rule exI[of _ ?new]) (use old f g key(1) in simp)
qed

theorem default_merge_partial_update_witness:
  "fst (update env0 UnitsController (session_on soup_db) (PInt 1)
          (flat [(''name'', PNone), (''grams'', PInt 5)]))
     = Inr (JDict [(''name'', JStr ''g''), (''grams'', JFloat 5)])
   \<and> find_row (sdb (snd (update env0 UnitsController (session_on soup_db) (PInt 1)
          (flat [(''name'', PNone), (''grams'', PInt 5)])))) Unit (PInt 1)
     = Some [(''id'', PInt 1), (''name'', PStr ''g''), (''grams'', PInt 5)]
   \<and> (\<exists>old new.
           find_row soup_db Unit (PInt 1) = Some old
         \<and> find_row (sdb (snd (update env0 UnitsController (session_on soup_db) (PInt 1)
                 (flat [(''name'', PNone), (''grams'', PInt 5)])))) Unit (PInt 1) = Some new
         \<and> col new ''name'' = col old ''name'' \<and> col new ''grams'' = PInt 5)"
proof -
  let ?s = "session_on soup_db"
  let ?data = "flat [(''name'', PNone), (''grams'', PInt 5)]"
  let ?u = "update env0 UnitsController ?s (PInt 1) ?data"
  have h1: "UnitsController \<in> {TagController, IngredientsController, UnitsController}" by simp
  have h2: "spending ?s = []" by (simp add: session_on_def)
  have h3: "distinct (map fst (p_fields ?data))" by (simp add: flat_def)
  have ev: "fst ?u = Inr (JDict [(''name'', JStr ''g''), (''grams'', JFloat 5)])"
    by (simp add: eval_defs)
  have fr: "find_row (sdb (snd ?u)) Unit (PInt 1)
      = Some [(''id'', PInt 1), (''name'', PStr ''g''), (''grams'', PInt 5)]"
    by (simp add: eval_defs)
  from ev have h4: "?u = (Inr (JDict [(''name'', JStr ''g''), (''grams'', JFloat 5)]), snd ?u)"
    by (metis prod.collapse)
  from default_merge_partial_update[OF h1 h2 h3 h4] obtain old new where
    o: "find_row (sdb ?s) (orm_model UnitsController) (PInt 1) = Some old"
    and n: "find_row (sdb (snd ?u)) (orm_model UnitsController)
             (if col (p_fields ?data) ''id'' = PNone then PInt 1 else col (p_fields ?data) ''id'')
             = Some new"
    and c: "\<forall>a \<in> set (columns (orm_model UnitsController)).
               col new a = (if col (p_fields ?data) a = PNone then col old a
                            else col (p_fields ?data) a)"
    by blast
  from o have o': "find_row soup_db Unit (PInt 1) = Some old" by (simp add: session_on_def)
  from n have n': "find_row (sdb (snd ?u)) Unit (PInt 1) = Some new"
    by (simp add: flat_def col_def)
  from c have "col new ''name'' = col old ''name''" "col new ''grams'' = PInt 5"
    by (simp_all add: flat_def col_def)
  with o' n' ev fr show ?thesis by auto
qed


section \<open>The referential guard of \<^verbatim>\<open>IngredientsController\<close>\<close>

lemma str_items_strs:
  "\<forall>v \<in> set vs. \<exists>t. v = PStr t \<Longrightarrow> \<exists>ts. str_items vs = Inr ts \<and> vs = map PStr ts"
proof (induction vs)
  case Nil
  then show ?case by simp
next
  case (Cons v vs)
  then obtain t ts where "v = PStr t" "str_items vs = Inr ts" "vs = map PStr ts" by auto
  then show ?case by auto
qed

lemma join_contains:
  "t \<in> set ts \<Longrightarrow> \<exists>pre post. join sep ts = pre @ t @ post"
proof (induction sep ts rule: join.induct)
  case (1 sep)
  then show ?case by simp
next
  case (2 sep x)
  then have "join sep [x] = [] @ t @ []" by simp
  then show ?case by blast
next
  case (3 sep x y ys)
  show ?case
  proof (cases "t = x")
    case True
    then have "join sep (x # y # ys) = [] @ t @ (sep @ join sep (y # ys))" by simp
    then show ?thesis by blast
  next
    case False
    with 3 obtain pre post where "join sep (y # ys) = pre @ t @ post" by auto
    then have "join sep (x # y # ys) = (x @ sep @ pre) @ t @ post" by simp
    then show ?thesis by blast
  qed
qed

lemma load_rows_subset: "r \<in> set (load_rows d c keys) \<Longrightarrow> r \<in> set (rows d c)"
  by (auto simp: load_rows_def split: option.splits dest!: find_row_SomeD[OF sym])

lemma commit_nothing: "spending s = [] \<Longrightarrow> commit s = (Inr [], s)"
  by (cases s) (simp add: commit_def)

text \<open>
  C5. Deleting an existing ingredient (in a database whose recipe titles are strings):
  when some ingredient item that references it is attached to a recipe, the call raises
  the 400, its detail contains the title of every such recipe, and the session is as
  before, so the ingredient is still there; otherwise the call succeeds and the
  ingredient's row is gone, the other ingredient rows being kept.
\<close>

theorem ingredient_delete_guard:
  assumes "session_get s Ingredient key \<noteq> None"
    and "spending s = []"
    and "\<forall>r \<in> set (rows (sdb s) Recipe). \<exists>t. col r ''title'' = PStr t"
  shows "if \<exists>item \<in> set (ingredients_items (sdb s) key). item_recipes (sdb s) item \<noteq> []
         then \<exists>msg. delete_single env IngredientsController s key = (Inl (HTTPException 400 msg), s)
                \<and> (\<forall>item \<in> set (ingredients_items (sdb s) key).
                     \<forall>r \<in> set (item_recipes (sdb s) item).
                       \<exists>t pre post. col r ''title'' = PStr t \<and> msg = pre @ t @ post)
         else \<exists>s'. delete_single env IngredientsController s key = (Inr (), s')
                \<and> find_row (sdb s') Ingredient key = None
                \<and> rows (sdb s') Ingredient = filter (\<lambda>r. row_id r \<noteq> key) (rows (sdb s) Ingredient)"
proof -
  from assms(1) obtain ing where ing: "session_get s Ingredient key = Some ing" by auto
  then have id: "eident ing = Some key" "ecls ing = Ingredient"
    by (auto simp: session_get_def split: option.splits)
  let ?recipes = "concat (map (\<lambda>item. map (\<lambda>r. col r ''title'') (item_recipes (sdb s) item))
                                  (ingredients_items (sdb s) key))"
  show ?thesis
  proof (cases "\<exists>item \<in> set (ingredients_items (sdb s) key). item_recipes (sdb s) item \<noteq> []")
    case True
    then have ne: "?recipes \<noteq> []" by auto
    have "\<forall>v \<in> set ?recipes. \<exists>t. v = PStr t"
      using assms(3) by (auto simp: item_recipes_def dest!: load_rows_subset)
    from str_items_strs[OF this] obtain ts where
      ts: "str_items ?recipes = Inr ts" "?recipes = map PStr ts" by blast
    let ?msg = "''Ingredient still attached to some recipes: '' @ join '', '' ts"
    have del: "delete_single env IngredientsController s key = (Inl (HTTPException 400 ?msg), s)"
      using ing ne ts(1) by (simp add: delete_single_def Ingredients_delete_single_def Let_def)
    have "\<exists>t pre post. col r ''title'' = PStr t \<and> ?msg = pre @ t @ post"
      if "item \<in> set (ingredients_items (sdb s) key)" "r \<in> set (item_recipes (sdb s) item)"
      for item r
    proof -
      from that have "col r ''title'' \<in> set ?recipes" by auto
      with ts(2) obtain t where t: "col r ''title'' = PStr t" "t \<in> set ts" by auto
      from join_contains[OF t(2), of "'', ''"] obtain pre post where
        "join '', '' ts = pre @ t @ post" by blast
      then have "?msg = (''Ingredient still attached to some recipes: '' @ pre) @ t @ post"
        by simp
      with t(1) show ?thesis by blast
    qed
    with del True show ?thesis by auto
  next
    case False
    then have "?recipes = []" by auto
    then have "delete_single env IngredientsController s key
        = (Inr (), s\<lparr>sdb := delete_obj (sdb s) Ingredient key\<rparr>)"
      using ing id assms(2)
      by (simp add: delete_single_def Ingredients_delete_single_def Controller_delete_single_def
          delete_commit_def commit_nothing Let_def)
    moreover have "find_row (delete_obj (sdb s) Ingredient key) Ingredient key = None"
      by (auto simp: delete_obj_def delete_row_def find_row_def find_None_iff)
    moreover have "rows (delete_obj (sdb s) Ingredient key) Ingredient
        = filter (\<lambda>r. row_id r \<noteq> key) (rows (sdb s) Ingredient)"
      by (simp add: delete_obj_def delete_row_def)
    ultimately show ?thesis using False by simp
  qed
qed

theorem ingredient_delete_guard_witness:
  "delete_single env0 IngredientsController (session_on soup_db) (PInt 3)
     = (Inl (HTTPException 400 ''Ingredient still attached to some recipes: Soup''),
        session_on soup_db)
   \<and> (\<exists>s'. delete_single env0 IngredientsController (session_on soup_db) (PInt 4) = (Inr (), s')
          \<and> find_row (sdb s') Ingredient (PInt 4) = None
          \<and> rows (sdb s') Ingredient
              = [[(''id'', PInt 3), (''name'', PStr ''salt''), (''is_liquid'', PBool False)]])"
proof -
  let ?s = "session_on soup_db"
  have h2: "spending ?s = []" by (simp add: session_on_def)
  have h3: "\<forall>r \<in> set (rows (sdb ?s) Recipe). \<exists>t. col r ''title'' = PStr t"
    by (simp add: eval_defs)
  have a1: "session_get ?s Ingredient (PInt 3) \<noteq> None" by (simp add: eval_defs)
  have a2: "session_get ?s Ingredient (PInt 4) \<noteq> None" by (simp add: eval_defs)
  have c1: "\<exists>item \<in> set (ingredients_items (sdb ?s) (PInt 3)). item_recipes (sdb ?s) item \<noteq> []"
    by (simp add: eval_defs)
  have c2: "\<not> (\<exists>item \<in> set (ingredients_items (sdb ?s) (PInt 4)). item_recipes (sdb ?s) item \<noteq> [])"
    by (simp add: eval_defs)
  from ingredient_delete_guard[OF a1 h2 h3, of env0] c1 obtain msg where
    "delete_single env0 IngredientsController ?s (PInt 3) = (Inl (HTTPException 400 msg), ?s)"
    by auto
  moreover have "fst (delete_single env0 IngredientsController ?s (PInt 3))
      = Inl (HTTPException 400 ''Ingredient still attached to some recipes: Soup'')"
    by (simp add: eval_defs)
  ultimately have p1: "delete_single env0 IngredientsController ?s (PInt 3)
     = (Inl (HTTPException 400 ''Ingredient still attached to some recipes: Soup''), ?s)"
    by simp
  from ingredient_delete_guard[OF a2 h2 h3, of env0] c2 obtain s' where
    s': "delete_single env0 IngredientsController ?s (PInt 4) = (Inr (), s')"
      "find_row (sdb s') Ingredient (PInt 4) = None"
      "rows (sdb s') Ingredient = filter (\<lambda>r. row_id r \<noteq> PInt 4) (rows (sdb ?s) Ingredient)"
    by auto
  from s'(3) have "rows (sdb s') Ingredient
      = [[(''id'', PInt 3), (''name'', PStr ''salt''), (''is_liquid'', PBool False)]]"
    by (simp add: eval_defs)
  with p1 s'(1,2) show ?thesis by blast
qed

section \<open>The natural-key upsert of \<^verbatim>\<open>UnitsController\<close>\<close>

text \<open>
  A value that \<^verbatim>\<open>_dictify\<close> turns into a transfer value without raising: no integer
  beyond the exact range of a float, no list and no entity.
\<close>

fun plain :: "pyval \<Rightarrow> bool" where
  "plain (PInt i) = (\<bar>i\<bar> < 2 ^ 53)"
| "plain (PList xs) = False"
| "plain (PObj c attrs) = False"
| "plain v = True"

text \<open>The names of the entries of a serialized entity, in their order.\<close>

definition json_keys :: "json \<Rightarrow> string list" where
  "json_keys j = (case j of JDict kvs \<Rightarrow> map fst kvs | _ \<Rightarrow> [])"

text \<open>The unit rows with a given name.\<close>

definition named :: "db \<Rightarrow> string \<Rightarrow> row list" where
  "named d n = filter (\<lambda>r. col r ''name'' = PStr n) (rows d Unit)"

text \<open>
  The unit table keeps its declared constraints (primary key, \<^verbatim>\<open>unique=True\<close> on the
  name) and holds plain values for \<^verbatim>\<open>grams\<close>.
\<close>

definition units_ok :: "db \<Rightarrow> bool" where
  "units_ok d \<longleftrightarrow>
     distinct (map row_id (rows d Unit)) \<and>
     distinct (map (\<lambda>r. col r ''name'') (rows d Unit)) \<and>
     (\<forall>r \<in> set (rows d Unit). row_id r \<noteq> PNone \<and> plain (col r ''grams''))"

lemma bit_length_le: "n < 2 ^ k \<Longrightarrow> bit_length n \<le> k"
proof (induction k arbitrary: n)
  case 0
  then show ?case by (simp add: bit_length.simps)
next
  case (Suc k)
  then have "n div 2 < 2 ^ k" by auto
  with Suc.IH have "bit_length (n div 2) \<le> k" by blast
  then show ?case by (subst bit_length.simps) simp
qed

lemma float_of_int_small: "\<bar>i\<bar> < 2 ^ 53 \<Longrightarrow> float_of_int i = Inr (of_int i)"
proof -
  assume "\<bar>i\<bar> < 2 ^ 53"
  then have "nat \<bar>i\<bar> < 2 ^ 53" by (simp add: nat_less_iff)
  then have "bit_length (nat \<bar>i\<bar>) \<le> 53" by (rule bit_length_le)
  then show ?thesis by (simp add: float_of_int_def Let_def)
qed

lemma dictify_plain: "plain v \<Longrightarrow> \<exists>j. dictify env v d = Inr j"
  by (cases v) (auto simp: float_of_int_small split: option.splits)

lemma unit_dictionary:
  assumes "plain g"
  shows "\<exists>j. dictionary env d \<lparr>ecls = Unit, eident = k,
                 eattrs = [(''id'', i), (''name'', PStr n), (''grams'', g)], orels = []\<rparr> = Inr j
           \<and> json_keys j = [''name'', ''grams''] \<and> read_id j = PNone"
proof -
  from dictify_plain[OF assms] obtain jg where jg: "dictify env g 99 = Inr jg" by blast
  obtain jn where jn: "dictify env (PStr n) 99 = Inr jn"
    by (cases "float_of_str env n") auto
  have "dictionary env d \<lparr>ecls = Unit, eident = k,
                 eattrs = [(''id'', i), (''name'', PStr n), (''grams'', g)], orels = []\<rparr>
      = Inr (JDict [(''name'', jn), (''grams'', jg)])"
    using jg jn by (simp add: dictionary_def load_entity_def get_attributes_def del: dictify.simps)
  then show ?thesis by (simp add: read_id_def json_keys_def)
qed

lemma fold_max_ge: "(i::int) \<le> fold max xs i \<and> (\<forall>x \<in> set xs. x \<le> fold max xs i)"
proof (induction xs arbitrary: i)
  case Nil
  then show ?case by simp
next
  case (Cons x xs)
  from Cons.IH[of "max x i"] show ?case by auto
qed

lemma int_ids_mem: "r \<in> set rs \<Longrightarrow> row_id r = PInt i \<Longrightarrow> i \<in> set (int_ids rs)"
  by (induction rs) (auto split: pyval.splits)

lemma next_id_fresh: "r \<in> set rs \<Longrightarrow> row_id r \<noteq> PInt (next_id rs)"
proof
  assume r: "r \<in> set rs" and eq: "row_id r = PInt (next_id rs)"
  then have m: "next_id rs \<in> set (int_ids rs)" by (rule int_ids_mem)
  then obtain i js where js: "int_ids rs = i # js" by (cases "int_ids rs") auto
  with m fold_max_ge[of i js] have "next_id rs \<le> fold max js i" by auto
  with js show False by (simp add: next_id_def)
qed

lemma map_of_filter_not_id:
  "map_of (filter (\<lambda>kv. fst kv \<noteq> k) fs) a = (if a = k then None else map_of fs a)"
  by (induction fs) auto

lemma col_unit_merge:
  assumes "distinct (map fst fs)"
  shows "col (eattrs (fold (\<lambda>kv x. setattr x (fst kv) (snd kv)) (filter (\<lambda>kv. fst kv \<noteq> ''id'') fs) m)) a
           = (if a = ''id'' then col (eattrs m) a
              else case map_of fs a of Some v \<Rightarrow> v | None \<Rightarrow> col (eattrs m) a)"
proof -
  from assms have "distinct (map fst (filter (\<lambda>kv. fst kv \<noteq> ''id'') fs))"
    by (simp add: distinct_map_filter)
  from col_fold_setattr[OF this] show ?thesis
    by (simp add: map_of_filter_not_id)
qed

lemma find_None_append: "find P xs = None \<Longrightarrow> find P (xs @ [x]) = (if P x then Some x else None)"
  by (induction xs) (auto split: if_splits)

lemma col_Nil: "col [] a = PNone"
  by (simp add: col_def)

lemma col_Cons: "col (kv # r) a = (if fst kv = a then snd kv else col r a)"
  by (cases kv) (simp add: col_def)

lemma insert_unit:
  assumes "col attrs ''id'' = PNone" and "col attrs ''name'' = PStr n"
    and "\<forall>x \<in> set (rows d Unit). col x ''name'' \<noteq> PStr n"
  shows "insert_row d Unit attrs =
           Inr (d\<lparr>rows := (rows d)(Unit := rows d Unit @
                   [[(''id'', PInt (next_id (rows d Unit))), (''name'', PStr n),
                     (''grams'', if col attrs ''grams'' = PNone then PInt 0
                                 else col attrs ''grams'')]])\<rparr>,
                PInt (next_id (rows d Unit)))"
proof -
  let ?g = "if col attrs ''grams'' = PNone then PInt 0 else col attrs ''grams''"
  let ?r = "[(''id'', PInt (next_id (rows d Unit))), (''name'', PStr n), (''grams'', ?g)]"
  have chk: "check_row Unit (rows d Unit) ?r = Inr ()"
    using assms(3) next_id_fresh[of _ "rows d Unit"]
    by (auto simp: check_row_def col_Cons col_Nil row_id_def)
  have "AList.update ''id'' (PInt (next_id (rows d Unit)))
          (map (\<lambda>a. (a, if col attrs a = PNone then column_default Unit a else col attrs a))
             (columns Unit)) = ?r"
    using assms(1,2) by (simp add: column_default_def)
  moreover have "col (map (\<lambda>a. (a, if col attrs a = PNone then column_default Unit a else col attrs a))
             (columns Unit)) ''id'' = PNone"
    using assms(1) by (simp add: column_default_def col_Cons)
  ultimately show ?thesis using chk
    by (simp add: insert_row_def Let_def del: columns.simps)
qed

lemma update_unit:
  assumes "find_row d Unit key = Some old" and "col attrs ''id'' = key"
    and "col attrs ''name'' = PStr n"
    and "\<forall>x \<in> set (rows d Unit). row_id x \<noteq> key \<longrightarrow> col x ''name'' \<noteq> PStr n"
  shows "update_row d Unit key attrs =
           Inr (d\<lparr>rows := (rows d)(Unit := map (\<lambda>x. if row_id x = key
                   then [(''id'', key), (''name'', PStr n), (''grams'', col attrs ''grams'')]
                   else x) (rows d Unit))\<rparr>, key)"
proof -
  let ?r = "[(''id'', key), (''name'', PStr n), (''grams'', col attrs ''grams'')]"
  have r: "map (\<lambda>a. (a, col attrs a)) (columns Unit) = ?r"
    using assms(2,3) by simp
  have chk: "check_row Unit (filter (\<lambda>x. row_id x \<noteq> key) (rows d Unit)) ?r = Inr ()"
    using assms(4) by (auto simp: check_row_def col_Cons col_Nil row_id_def)
  show ?thesis using assms(1) chk
    by (simp add: update_row_def Let_def r row_id_def col_Cons del: columns.simps)
qed

lemma filter_distinct_key:
  "distinct (map f xs) \<Longrightarrow> x \<in> set xs \<Longrightarrow> f x = k \<Longrightarrow> filter (\<lambda>y. f y = k) xs = [x]"
proof (induction xs)
  case Nil
  then show ?case by simp
next
  case (Cons y ys)
  show ?case
  proof (cases "x = y")
    case True
    with Cons.prems have "f y \<notin> f ` set ys" "k = f y" by auto
    then have "\<forall>z \<in> set ys. f z \<noteq> k" by (metis image_eqI)
    then have "filter (\<lambda>y. f y = k) ys = []" by (simp add: filter_empty_conv)
    with True Cons.prems show ?thesis by simp
  next
    case False
    with Cons.prems have "x \<in> set ys" "f y \<noteq> k" by force+
    with Cons show ?thesis by simp
  qed
qed

lemma distinct_key_eq:
  "distinct (map f xs) \<Longrightarrow> x \<in> set xs \<Longrightarrow> y \<in> set xs \<Longrightarrow> f x = f y \<Longrightarrow> x = y"
  by (meson distinct_map inj_onD)

lemma flush_obj_no_rels:
  "orels m = [] \<Longrightarrow>
   flush_obj d m = (case eident m of
                      None \<Rightarrow> insert_row d (ecls m) (eattrs m)
                    | Some k \<Rightarrow> update_row d (ecls m) k (eattrs m))"
  by (auto simp: flush_obj_def bindE_def split: sum.splits option.splits)

lemma units_upsert_step:
  assumes ok: "units_ok (sdb s)" and sp: "spending s = []"
    and nm: "map_of (p_fields data) ''name'' = Some (PStr n)"
    and noid: "\<not> truthy (col (p_fields data) ''id'')"
    and gr: "plain (col (p_fields data) ''grams'')"
    and dist: "distinct (map fst (p_fields data))"
  shows "\<exists>j s' r. Units_create_or_update env s data = (Inr j, s')
           \<and> json_keys j = [''name'', ''grams''] \<and> read_id j = PNone
           \<and> units_ok (sdb s') \<and> spending s' = [] \<and> named (sdb s') n = [r]
           \<and> (case named (sdb s) n of
                 [] \<Rightarrow> length (rows (sdb s') Unit) = Suc (length (rows (sdb s) Unit))
               | old # _ \<Rightarrow> row_id r = row_id old
                     \<and> length (rows (sdb s') Unit) = length (rows (sdb s) Unit))"
proof -
  let ?fs = "p_fields data"
  let ?rows = "rows (sdb s) Unit"
  let ?set = "\<lambda>m. fold (\<lambda>kv x. setattr x (fst kv) (snd kv)) (filter (\<lambda>kv. fst kv \<noteq> ''id'') ?fs) m"
  from nm have ga: "getattr ?fs ''name'' = Inr (PStr n)" by (simp add: getattr_def)
  have cm: "\<And>m a. col (eattrs (?set m)) a
           = (if a = ''id'' then col (eattrs m) a
              else case map_of ?fs a of Some v \<Rightarrow> v | None \<Rightarrow> col (eattrs m) a)"
    by (rule col_unit_merge[OF dist])
  from ok have d_id: "distinct (map row_id ?rows)"
    and d_nm: "distinct (map (\<lambda>r. col r ''name'') ?rows)"
    and rs: "\<And>r. r \<in> set ?rows \<Longrightarrow> row_id r \<noteq> PNone \<and> plain (col r ''grams'')"
    by (auto simp: units_ok_def)
  show ?thesis
  proof (cases "find (\<lambda>r. col r ''name'' = PStr n) ?rows")
    case None
    then have nonamed: "\<forall>x \<in> set ?rows. col x ''name'' \<noteq> PStr n"
      by (auto simp: find_None_iff)
    then have nm0: "named (sdb s) n = []" by (auto simp: named_def filter_empty_conv)
    let ?m = "?set (new_obj Unit)"
    let ?g = "if col (eattrs ?m) ''grams'' = PNone then PInt 0 else col (eattrs ?m) ''grams''"
    let ?key = "PInt (next_id ?rows)"
    let ?r = "[(''id'', ?key), (''name'', PStr n), (''grams'', ?g)]"
    let ?d' = "(sdb s)\<lparr>rows := (rows (sdb s))(Unit := ?rows @ [?r])\<rparr>"
    let ?s' = "\<lparr>sdb = ?d', spending = []\<rparr>"
    have c_id: "col (eattrs ?m) ''id'' = PNone" by (simp add: cm) (simp add: new_obj_def col_def)
    have c_nm: "col (eattrs ?m) ''name'' = PStr n" using nm by (simp add: cm)
    have c_gr: "col (eattrs ?m) ''grams'' = col ?fs ''grams''"
      by (simp add: cm) (simp add: new_obj_def col_def split: option.splits)
    have pg: "plain ?g" using gr c_gr by simp
    have ins: "insert_row (sdb s) Unit (eattrs ?m) = Inr (?d', ?key)"
      by (rule insert_unit[OF c_id c_nm nonamed])
    have fm: "ecls ?m = Unit" "eident ?m = None" "orels ?m = []"
      by (simp_all add: new_obj_def)
    have ac: "add_commit s ?m = (Inr ?key, ?s')"
      using ins fm by (simp add: add_commit_empty[OF sp] flush_obj_no_rels)
    have fb0: "first_by_name s Unit (PStr n) = None"
      using None by (simp add: first_by_name_def)
    have fb1: "first_by_name ?s' Unit (PStr n)
        = Some \<lparr>ecls = Unit, eident = Some ?key, eattrs = ?r, orels = []\<rparr>"
      using None by (simp add: first_by_name_def find_None_append col_Cons row_id_def)
    from unit_dictionary[OF pg, of env ?d' "Some ?key" ?key n] obtain j where
      j: "dictionary env ?d' \<lparr>ecls = Unit, eident = Some ?key, eattrs = ?r, orels = []\<rparr> = Inr j"
         "json_keys j = [''name'', ''grams''] \<and> read_id j = PNone" by blast
    have res: "Units_create_or_update env s data = (Inr j, ?s')"
      using noid ga fb0 ac fb1 j(1) c_nm
      by (simp add: Units_create_or_update_def setattrs_Some)
    have rid: "row_id ?r = ?key" by (simp add: row_id_def col_Cons)
    have fresh: "?key \<notin> set (map row_id ?rows)"
    proof
      assume "?key \<in> set (map row_id ?rows)"
      then obtain x where "x \<in> set ?rows" "row_id x = ?key" by auto
      with next_id_fresh show False by blast
    qed
    have newnm: "PStr n \<notin> set (map (\<lambda>r. col r ''name'') ?rows)"
      using nonamed by (auto simp: image_iff)
    have o1: "distinct (map row_id (rows ?d' Unit))" using d_id fresh rid by simp
    have o2: "distinct (map (\<lambda>r. col r ''name'') (rows ?d' Unit))"
      using d_nm newnm by (simp add: col_Cons)
    have o3: "\<forall>r \<in> set (rows ?d' Unit). row_id r \<noteq> PNone \<and> plain (col r ''grams'')"
      using rs pg rid by (auto simp: col_Cons)
    have ok': "units_ok ?d'"
      unfolding units_ok_def using o1 o2 o3 by blast
    have nm1: "named ?d' n = [?r]"
      using nonamed by (simp add: named_def col_Cons filter_empty_conv)
    have "length (rows ?d' Unit) = Suc (length ?rows)" by simp
    with res j(2) ok' nm1 nm0 show ?thesis by (intro exI[of _ j] exI[of _ ?s'] exI[of _ ?r]) simp
  next
    case (Some old)
    then have oldin: "old \<in> set ?rows" and oldnm: "col old ''name'' = PStr n"
      by (auto simp: find_Some_iff)
    let ?key = "row_id old"
    let ?item = "\<lparr>ecls = Unit, eident = Some ?key, eattrs = old, orels = []\<rparr>"
    let ?m = "?set ?item"
    let ?g = "col (eattrs ?m) ''grams''"
    let ?r = "[(''id'', ?key), (''name'', PStr n), (''grams'', ?g)]"
    let ?rep = "\<lambda>x. if row_id x = ?key then ?r else x"
    let ?d' = "(sdb s)\<lparr>rows := (rows (sdb s))(Unit := map ?rep ?rows)\<rparr>"
    let ?s' = "\<lparr>sdb = ?d', spending = []\<rparr>"
    from rs[OF oldin] have keynn: "?key \<noteq> PNone" and pold: "plain (col old ''grams'')" by auto
    have only_id: "\<And>x. x \<in> set ?rows \<Longrightarrow> row_id x = ?key \<Longrightarrow> x = old"
      using distinct_key_eq[OF d_id _ oldin] by blast
    have only_nm: "\<And>x. x \<in> set ?rows \<Longrightarrow> col x ''name'' = PStr n \<Longrightarrow> x = old"
      using distinct_key_eq[OF d_nm _ oldin] oldnm by simp
    have c_id: "col (eattrs ?m) ''id'' = ?key" by (simp add: cm row_id_def)
    have c_nm: "col (eattrs ?m) ''name'' = PStr n" using nm by (simp add: cm)
    have pg: "plain ?g"
      using gr pold by (simp add: cm col_def[of ?fs] split: option.splits)
    have fr: "find_row (sdb s) Unit ?key = Some old"
      using keynn oldin only_id by (simp add: find_row_def) (rule find_unique, auto)
    have others: "\<forall>x \<in> set ?rows. row_id x \<noteq> ?key \<longrightarrow> col x ''name'' \<noteq> PStr n"
      using only_nm by blast
    have up: "update_row (sdb s) Unit ?key (eattrs ?m) = Inr (?d', ?key)"
      by (rule update_unit[OF fr c_id c_nm others])
    have fm: "ecls ?m = Unit" "eident ?m = Some ?key" "orels ?m = []"
      by simp_all
    have ac: "add_commit s ?m = (Inr ?key, ?s')"
      using up fm by (simp add: add_commit_empty[OF sp] flush_obj_no_rels)
    have fb0: "first_by_name s Unit (PStr n) = Some ?item"
      using Some by (simp add: first_by_name_def)
    have rin0: "?r \<in> set (map ?rep ?rows)"
      using oldin by (auto intro!: image_eqI[of _ _ old])
    have "find (\<lambda>r. col r ''name'' = PStr n) (map ?rep ?rows) = Some ?r"
    proof (rule find_unique)
      have "col ?r ''name'' = PStr n" by (simp add: col_Cons)
      with rin0 show "\<exists>x \<in> set (map ?rep ?rows). col x ''name'' = PStr n"
        by blast
      show "\<forall>x \<in> set (map ?rep ?rows). col x ''name'' = PStr n \<longrightarrow> x = ?r"
        using others by auto
    qed
    then have fb1: "first_by_name ?s' Unit (PStr n)
        = Some \<lparr>ecls = Unit, eident = Some ?key, eattrs = ?r, orels = []\<rparr>"
      by (simp add: first_by_name_def row_id_def col_Cons)
    from unit_dictionary[OF pg, of env ?d' "Some ?key" ?key n] obtain j where
      j: "dictionary env ?d' \<lparr>ecls = Unit, eident = Some ?key, eattrs = ?r, orels = []\<rparr> = Inr j"
         "json_keys j = [''name'', ''grams''] \<and> read_id j = PNone" by blast
    have res: "Units_create_or_update env s data = (Inr j, ?s')"
      using noid ga fb0 ac fb1 j(1) c_nm
      by (simp add: Units_create_or_update_def setattrs_Some)
    have same_id: "map row_id (map ?rep ?rows) = map row_id ?rows"
      by (simp add: row_id_def col_Cons)
    have "col x ''name'' = PStr n" if "x \<in> set ?rows" "row_id x = ?key" for x
      using only_id[OF that] oldnm by simp
    then have same_nm:
      "map (\<lambda>r. col r ''name'') (map ?rep ?rows) = map (\<lambda>r. col r ''name'') ?rows"
      by (simp add: col_Cons)
    have r1: "rows ?d' Unit = map ?rep ?rows" by simp
    have rid: "row_id ?r = ?key" by (simp add: row_id_def col_Cons)
    have o1: "distinct (map row_id (rows ?d' Unit))"
      unfolding r1 same_id by (rule d_id)
    have o2: "distinct (map (\<lambda>r. col r ''name'') (rows ?d' Unit))"
      unfolding r1 same_nm by (rule d_nm)
    have o3: "\<forall>r \<in> set (rows ?d' Unit). row_id r \<noteq> PNone \<and> plain (col r ''grams'')"
    proof
      fix r assume "r \<in> set (rows ?d' Unit)"
      then consider "r = ?r" | "r \<in> set ?rows" unfolding r1 by auto
      then show "row_id r \<noteq> PNone \<and> plain (col r ''grams'')"
      proof cases
        case 1
        with rid keynn pg show ?thesis by (simp add: col_Cons)
      next
        case 2
        then show ?thesis by (rule rs)
      qed
    qed
    have ok': "units_ok ?d'"
      unfolding units_ok_def using o1 o2 o3 by blast
    have rin: "?r \<in> set (rows ?d' Unit)" using rin0 by simp
    have nm1: "named ?d' n = [?r]"
      unfolding named_def
      by (rule filter_distinct_key[where f = "\<lambda>r. col r ''name''"])
         (use ok' rin in \<open>auto simp: units_ok_def col_Cons\<close>)
    have nm0: "named (sdb s) n = [old]"
      unfolding named_def
      by (rule filter_distinct_key[where f = "\<lambda>r. col r ''name''", OF d_nm oldin oldnm])
    have "length (rows ?d' Unit) = length ?rows" by simp
    with rid show ?thesis using res j(2) ok' nm1 nm0
      by (intro exI[of _ j] exI[of _ ?s'] exI[of _ ?r]) simp
  qed
qed

text \<open>
  What \<^verbatim>\<open>_get_ingredients_and_tags\<close> reads back from the two upserts of a line item, for
  the unit \<^verbatim>\<open>g\<close> and the ingredient \<^verbatim>\<open>pepper\<close> (id 4) of the example state: the
  ingredient's read shape carries its id, the unit's carries none.
\<close>

lemma build_items_reads_no_unit_id:
  "(case fst (build_items env0 (session_on soup_db)
               [\<lparr>i_fields = [(''amount'', PInt 3)],
                 i_ingredient = [(''id'', PInt 4), (''name'', PStr ''pepper'')],
                 i_unit = [(''name'', PStr ''g'')]\<rparr>]) of
      Inl e \<Rightarrow> []
    | Inr ms \<Rightarrow> map (\<lambda>m. (col (eattrs m) ''unit_id'', col (eattrs m) ''ingredient_id'')) ms)
   = [(PNone, PInt 4)]"
  by (simp add: eval_defs)

text \<open>
  C2. On a session with nothing pending whose unit table keeps its constraints,
  calling the unit controller's \<^verbatim>\<open>create_or_update\<close> twice with the same payload, which
  carries no id and the name \<open>n\<close>, succeeds both times; after each call exactly one
  unit row has that name, it has the same id after the second call as after the first,
  and the second call adds no row. The read shape that each call returns has the
  entries \<^verbatim>\<open>name\<close> and \<^verbatim>\<open>grams\<close> of \<^verbatim>\<open>Unit.__items__\<close> and no other: neither call returns
  an id, and the id read from either result is \<^verbatim>\<open>None\<close>.
\<close>

theorem unit_upsert_twice:
  assumes "units_ok (sdb s)" and "spending s = []"
    and "map_of (p_fields data) ''name'' = Some (PStr n)"
    and "\<not> truthy (col (p_fields data) ''id'')"
    and "plain (col (p_fields data) ''grams'')"
    and "distinct (map fst (p_fields data))"
  shows "\<exists>j1 s1 j2 s2 r1 r2.
           create_or_update env UnitsController s data = (Inr j1, s1)
         \<and> create_or_update env UnitsController s1 data = (Inr j2, s2)
         \<and> json_keys j1 = [''name'', ''grams''] \<and> json_keys j2 = [''name'', ''grams'']
         \<and> read_id j1 = PNone \<and> read_id j2 = PNone
         \<and> named (sdb s1) n = [r1] \<and> named (sdb s2) n = [r2] \<and> row_id r1 = row_id r2
         \<and> length (rows (sdb s2) Unit) = length (rows (sdb s1) Unit)"
proof -
  from units_upsert_step[OF assms, of env] obtain j1 s1 r1 where
    1: "Units_create_or_update env s data = (Inr j1, s1)"
       "json_keys j1 = [''name'', ''grams'']" "read_id j1 = PNone"
       "units_ok (sdb s1)" "spending s1 = []" "named (sdb s1) n = [r1]"
    by blast
  from units_upsert_step[OF 1(4,5) assms(3-6), of env] obtain j2 s2 r2 where
    2: "Units_create_or_update env s1 data = (Inr j2, s2)"
       "json_keys j2 = [''name'', ''grams'']" "read_id j2 = PNone"
       "named (sdb s2) n = [r2]"
       "case named (sdb s1) n of
          [] \<Rightarrow> length (rows (sdb s2) Unit) = Suc (length (rows (sdb s1) Unit))
        | old # _ \<Rightarrow> row_id r2 = row_id old
              \<and> length (rows (sdb s2) Unit) = length (rows (sdb s1) Unit)"
    by blast
  from 2(5) 1(6) have "row_id r1 = row_id r2"
    "length (rows (sdb s2) Unit) = length (rows (sdb s1) Unit)" by simp_all
  with 1 2 show ?thesis by (simp add: create_or_update_def)
qed

text \<open>
  The unit \<^verbatim>\<open>ml\<close>, which the example state does not hold, upserted twice: the row gets
  the id 2, and the call returns the name and the grams.
\<close>

theorem unit_upsert_twice_witness:
  "fst (create_or_update env0 UnitsController (session_on soup_db)
          (flat [(''name'', PStr ''ml'')]))
     = Inr (JDict [(''name'', JStr ''ml''), (''grams'', JFloat 0)])
   \<and> named (sdb (snd (create_or_update env0 UnitsController (session_on soup_db)
                      (flat [(''name'', PStr ''ml'')])))) ''ml''
     = [[(''id'', PInt 2), (''name'', PStr ''ml''), (''grams'', PInt 0)]]
   \<and> (\<exists>j1 s1 j2 s2 r1 r2.
           create_or_update env0 UnitsController (session_on soup_db)
             (flat [(''name'', PStr ''ml'')]) = (Inr j1, s1)
         \<and> create_or_update env0 UnitsController s1 (flat [(''name'', PStr ''ml'')]) = (Inr j2, s2)
         \<and> json_keys j1 = [''name'', ''grams''] \<and> json_keys j2 = [''name'', ''grams'']
         \<and> read_id j1 = PNone \<and> read_id j2 = PNone
         \<and> named (sdb s1) ''ml'' = [r1] \<and> named (sdb s2) ''ml'' = [r2] \<and> row_id r1 = row_id r2
         \<and> length (rows (sdb s2) Unit) = length (rows (sdb s1) Unit))"
proof -
  let ?s = "session_on soup_db"
  let ?data = "flat [(''name'', PStr ''ml'')]"
  have h1: "units_ok (sdb ?s)" by (simp add: units_ok_def eval_defs)
  have h2: "spending ?s = []" by (simp add: session_on_def)
  have h3: "map_of (p_fields ?data) ''name'' = Some (PStr ''ml'')" by (simp add: flat_def)
  have h4: "\<not> truthy (col (p_fields ?data) ''id'')" by (simp add: flat_def col_def)
  have h5: "plain (col (p_fields ?data) ''grams'')" by (simp add: flat_def col_def)
  have h6: "distinct (map fst (p_fields ?data))" by (simp add: flat_def)
  have ev: "case create_or_update env0 UnitsController ?s ?data of (r, t) \<Rightarrow>
              r = Inr (JDict [(''name'', JStr ''ml''), (''grams'', JFloat 0)])
            \<and> named (sdb t) ''ml'' = [[(''id'', PInt 2), (''name'', PStr ''ml''), (''grams'', PInt 0)]]"
    by (simp add: named_def eval_defs)
  then have ev1: "fst (create_or_update env0 UnitsController ?s ?data)
       = Inr (JDict [(''name'', JStr ''ml''), (''grams'', JFloat 0)])"
    and ev2: "named (sdb (snd (create_or_update env0 UnitsController ?s ?data))) ''ml''
       = [[(''id'', PInt 2), (''name'', PStr ''ml''), (''grams'', PInt 0)]]"
    by (cases "create_or_update env0 UnitsController ?s ?data"; simp)+
  show ?thesis using unit_upsert_twice[OF h1 h2 h3 h4 h5 h6, of env0] ev1 ev2 by simp
qed


section \<open>The collections of a recipe after a write\<close>

text \<open>A table of the second state starts with the rows of the first.\<close>

definition grows :: "cls \<Rightarrow> db \<Rightarrow> db \<Rightarrow> bool" where
  "grows c d d' \<longleftrightarrow> (\<exists>new. rows d' c = rows d c @ new)"

lemma grows_refl [simp]: "grows c d d"
  by (simp add: grows_def)

lemma grows_trans: "grows c d d1 \<Longrightarrow> grows c d1 d2 \<Longrightarrow> grows c d d2"
  by (auto simp: grows_def)

lemma grows_eq: "rows d' c = rows d c \<Longrightarrow> grows c d d'"
  by (simp add: grows_def)

lemma grows_subset: "grows c d d' \<Longrightarrow> set (rows d c) \<subseteq> set (rows d' c)"
  by (auto simp: grows_def)

lemma find_append_Some: "find P xs = Some x \<Longrightarrow> find P (xs @ ys) = Some x"
  by (induction xs) (auto split: if_splits)

lemma find_append_None: "find P (xs @ ys) = None \<Longrightarrow> find P xs = None"
  by (induction xs) (auto split: if_splits)

lemma find_row_grows_Some:
  "grows c d d' \<Longrightarrow> find_row d c k = Some r \<Longrightarrow> find_row d' c k = Some r"
  by (auto simp: grows_def find_row_def find_append_Some split: if_splits)

lemma find_row_grows_None:
  "grows c d d' \<Longrightarrow> find_row d' c k = None \<Longrightarrow> find_row d c k = None"
  by (auto simp: grows_def find_row_def dest: find_append_None split: if_splits)

text \<open>What a successful INSERT leaves.\<close>

lemma insert_row_result:
  assumes "insert_row d c attrs = Inr (d', k)"
  shows "links d' = links d"
    and "\<And>c'. c' \<noteq> c \<Longrightarrow> rows d' c' = rows d c'"
    and "grows c' d d'"
    and "find_row d c k = None"
    and "\<exists>r. rows d' c = rows d c @ [r] \<and> find_row d' c k = Some r
           \<and> (\<forall>a \<in> set (columns c). a \<noteq> ''id'' \<longrightarrow>
                 col r a = (if col attrs a = PNone then column_default c a else col attrs a))"
proof -
  let ?vals = "map (\<lambda>a. (a, if col attrs a = PNone then column_default c a else col attrs a))
                   (columns c)"
  let ?key = "if col ?vals ''id'' = PNone then PInt (next_id (rows d c)) else col ?vals ''id''"
  let ?r = "AList.update ''id'' ?key ?vals"
  from assms have chk: "check_row c (rows d c) ?r = Inr ()"
    and d': "d' = d\<lparr>rows := (rows d)(c := rows d c @ [?r])\<rparr>" and k: "k = ?key"
    by (auto simp: insert_row_def Let_def bindE_def split: sum.splits)
  have rid: "row_id ?r = k" by (simp add: row_id_def col_update k)
  have knn: "k \<noteq> PNone" by (simp add: k)
  from chk have pk: "\<forall>x \<in> set (rows d c). row_id x \<noteq> k"
    unfolding rid[symmetric] by (auto simp: check_row_def split: if_splits)
  then have none: "find (\<lambda>x. row_id x = k) (rows d c) = None"
    by (auto simp: find_None_iff)
  show "links d' = links d" by (simp add: d')
  show "\<And>c'. c' \<noteq> c \<Longrightarrow> rows d' c' = rows d c'" by (simp add: d')
  show "grows c' d d'" by (simp add: d' grows_def)
  show "find_row d c k = None" using none by (simp add: find_row_def)
  have "find_row d' c k = Some ?r"
    using none knn rid by (simp add: find_row_def d' find_None_append)
  moreover have "\<forall>a \<in> set (columns c). a \<noteq> ''id'' \<longrightarrow>
      col ?r a = (if col attrs a = PNone then column_default c a else col attrs a)"
    by (simp add: col_update col_map_columns)
  moreover have "rows d' c = rows d c @ [?r]" by (simp add: d')
  ultimately show "\<exists>r. rows d' c = rows d c @ [r] \<and> find_row d' c k = Some r
           \<and> (\<forall>a \<in> set (columns c). a \<noteq> ''id'' \<longrightarrow>
                 col r a = (if col attrs a = PNone then column_default c a else col attrs a))"
    by blast
qed

text \<open>What a successful replacement of a collection leaves.\<close>

lemma sync_links_result:
  assumes "sync_links d t pid ids = Inr d'"
  shows "rows d' = rows d" and "set (members_of d' t pid) = set ids"
    and "\<And>t'. t' \<noteq> t \<Longrightarrow> links d' t' = links d t'"
proof -
  let ?old = "map snd (filter (\<lambda>l. fst l = pid) (links d t))"
  let ?added = "filter (\<lambda>m. m \<notin> set ?old) ids"
  from assms have d': "d' = d\<lparr>links := (links d)(t :=
                filter (\<lambda>l. \<not> (fst l = pid \<and> snd l \<notin> set ids)) (links d t)
                  @ map (Pair pid) ?added)\<rparr>"
    by (auto simp: sync_links_def Let_def split: if_splits)
  show "rows d' = rows d" by (simp add: d')
  show "\<And>t'. t' \<noteq> t \<Longrightarrow> links d' t' = links d t'" by (simp add: d')
  show "set (members_of d' t pid) = set ids"
    by (auto simp: d' members_of_def image_iff)
qed

text \<open>
  A member of a flushed collection and its key: a persistent member keeps its key; a
  transient member has a new row under a key that no row had, and the row holds the
  member's attributes (the column default where the attribute is \<^verbatim>\<open>None\<close>).
\<close>

definition flushed :: "db \<Rightarrow> db \<Rightarrow> ent option \<Rightarrow> pyval \<Rightarrow> bool" where
  "flushed d d' m k \<longleftrightarrow>
     (case m of
        None \<Rightarrow> False
      | Some e \<Rightarrow>
          (case eident e of
             Some k' \<Rightarrow> k = k'
           | None \<Rightarrow>
               find_row d (ecls e) k = None \<and>
               (case find_row d' (ecls e) k of
                  None \<Rightarrow> False
                | Some r \<Rightarrow> \<forall>a \<in> set (columns (ecls e)). a \<noteq> ''id'' \<longrightarrow>
                    col r a = (if col (eattrs e) a = PNone then column_default (ecls e) a
                               else col (eattrs e) a))))"

lemma flushed_mono:
  assumes "flushed d1 d2 m k"
    and "\<And>e. m = Some e \<Longrightarrow> grows (ecls e) d d1"
    and "\<And>e. m = Some e \<Longrightarrow> grows (ecls e) d2 d3"
  shows "flushed d d3 m k"
proof (cases m)
  case None
  with assms(1) show ?thesis by (simp add: flushed_def)
next
  case (Some e)
  show ?thesis
  proof (cases "eident e")
    case None
    with Some assms(1) obtain r where
      r: "find_row d1 (ecls e) k = None" "find_row d2 (ecls e) k = Some r"
         "\<forall>a \<in> set (columns (ecls e)). a \<noteq> ''id'' \<longrightarrow>
             col r a = (if col (eattrs e) a = PNone then column_default (ecls e) a
                        else col (eattrs e) a)"
      by (auto simp: flushed_def split: option.splits)
    from find_row_grows_None[OF assms(2)[OF Some] r(1)]
      find_row_grows_Some[OF assms(3)[OF Some] r(2)] r(3)
    show ?thesis using Some None by (simp add: flushed_def)
  next
    case (Some k')
    with \<open>m = Some e\<close> assms(1) show ?thesis by (simp add: flushed_def)
  qed
qed

lemma flush_members_result:
  assumes "flush_members d ms = Inr (d', ids)"
  shows "links d' = links d \<and> (\<forall>c. grows c d d') \<and> list_all2 (flushed d d') ms ids"
  using assms
proof (induction ms arbitrary: d d' ids)
  case Nil
  then show ?case by simp
next
  case (Cons m ms)
  from Cons.prems obtain e where m: "m = Some e" by (cases m) auto
  from Cons.prems m obtain d1 k d2 ks where
    st: "(case eident e of None \<Rightarrow> insert_row d (ecls e) (eattrs e) | Some k \<Rightarrow> Inr (d, k))
           = Inr (d1, k)"
    and rest: "flush_members d1 ms = Inr (d2, ks)" and eq: "d' = d2" "ids = k # ks"
    by (auto simp: bindE_def split: sum.splits)
  from Cons.IH[OF rest] have ih: "links d2 = links d1" "\<And>c. grows c d1 d2"
    "list_all2 (flushed d1 d2) ms ks" by auto
  have one: "links d1 = links d \<and> (\<forall>c. grows c d d1) \<and> flushed d d1 (Some e) k"
  proof (cases "eident e")
    case None
    with st have ins: "insert_row d (ecls e) (eattrs e) = Inr (d1, k)" by simp
    from insert_row_result[OF ins] None show ?thesis
      by (auto simp: flushed_def)
  next
    case (Some k')
    with st show ?thesis by (auto simp: flushed_def)
  qed
  have "flushed d d2 (Some e) k"
    by (rule flushed_mono[of d d1 _ _ d d2]) (use one ih(2) in auto)
  moreover have "list_all2 (flushed d d2) ms ks"
    using ih(3) one by (auto elim!: list_all2_mono intro: flushed_mono[of d1 d2 _ _ d d2])
  moreover have "\<forall>c. grows c d d2" using one ih(2) by (blast intro: grows_trans)
  ultimately show ?case using one ih(1) eq m by simp
qed

text \<open>The two collections of a recipe at flush.\<close>

lemma sync_rels_recipe:
  assumes "sync_rels d Recipe key [(''ingredients'', its), (''tags'', tgs)] = Inr d'"
  shows "\<exists>ids tids.
           list_all2 (flushed d d') its ids \<and> list_all2 (flushed d d') tgs tids
         \<and> set (members_of d' Ingredients_tbl key) = set ids
         \<and> set (members_of d' Tags_tbl key) = set tids
         \<and> (\<forall>c. grows c d d')"
proof -
  from assms obtain da ids db dc tids where
    a: "flush_members d its = Inr (da, ids)" and
    b: "sync_links da Ingredients_tbl key ids = Inr db" and
    c: "flush_members db tgs = Inr (dc, tids)" and
    e: "sync_links dc Tags_tbl key tids = Inr d'"
    by (auto simp: relationship_def bindE_def split: sum.splits)
  note ra = flush_members_result[OF a] and rb = sync_links_result[OF b]
    and rc = flush_members_result[OF c] and re = sync_links_result[OF e]
  have g1: "\<And>x. grows x d da" using ra by blast
  have g2: "\<And>x. grows x da db" using rb(1) by (simp add: grows_def)
  have g3: "\<And>x. grows x db dc" using rc by blast
  have g4: "\<And>x. grows x dc d'" using re(1) by (simp add: grows_def)
  have g_ad: "\<And>x. grows x da d'" by (blast intro: grows_trans g2 g3 g4)
  have g_db: "\<And>x. grows x d db" by (blast intro: grows_trans g1 g2)
  have g: "\<And>x. grows x d d'" by (blast intro: grows_trans g1 g_ad)
  have "list_all2 (flushed d d') its ids"
    using ra by (auto elim!: list_all2_mono intro: flushed_mono[of d da _ _ d d'] g_ad)
  moreover have "list_all2 (flushed d d') tgs tids"
    using rc by (auto elim!: list_all2_mono intro: flushed_mono[of db dc _ _ d d'] g_db g4)
  moreover have "links dc Ingredients_tbl = links db Ingredients_tbl" using rc by simp
  then have "set (members_of d' Ingredients_tbl key) = set ids"
    using rb(2) re(3)[of Ingredients_tbl] by (simp add: members_of_def)
  moreover note re(2)
  ultimately show ?thesis using g by blast
qed

text \<open>
  The tables in \<open>C\<close> and every association table are the same in both states; the
  pending instances have no assigned collection and no class in \<open>C\<close>.
\<close>

definition keeps :: "cls set \<Rightarrow> db \<Rightarrow> db \<Rightarrow> bool" where
  "keeps C d d' \<longleftrightarrow> (\<forall>c \<in> C. rows d' c = rows d c) \<and> links d' = links d"

definition outside :: "cls set \<Rightarrow> obj list \<Rightarrow> bool" where
  "outside C ms \<longleftrightarrow> (\<forall>m \<in> set ms. orels m = [] \<and> ecls m \<notin> C)"

lemma keeps_refl [simp]: "keeps C d d"
  by (simp add: keeps_def)

lemma keeps_trans: "keeps C d d1 \<Longrightarrow> keeps C d1 d2 \<Longrightarrow> keeps C d d2"
  by (simp add: keeps_def)

lemma flush_obj_keeps:
  assumes "flush_obj d m = Inr (d', k)" and "orels m = []" and "ecls m \<notin> C"
  shows "keeps C d d'"
proof -
  have fr: "links d' = links d \<and> (\<forall>c'. c' \<noteq> ecls m \<longrightarrow> rows d' c' = rows d c')"
  proof (cases "eident m")
    case None
    with assms have "insert_row d (ecls m) (eattrs m) = Inr (d', k)"
      by (simp add: flush_obj_no_rels)
    from insert_row_result(1,2)[OF this] show ?thesis by blast
  next
    case (Some key)
    with assms have "update_row d (ecls m) key (eattrs m) = Inr (d', k)"
      by (simp add: flush_obj_no_rels)
    from update_row_result(2,3)[OF this] show ?thesis by blast
  qed
  have "rows d' c = rows d c" if "c \<in> C" for c
  proof -
    from that assms(3) have "c \<noteq> ecls m" by blast
    with fr show ?thesis by blast
  qed
  with fr show ?thesis by (simp add: keeps_def)
qed

lemma flush_all_keeps:
  "flush_all d ms = Inr (d', ks) \<Longrightarrow> outside C ms \<Longrightarrow> keeps C d d'"
proof (induction ms arbitrary: d ks)
  case Nil
  then show ?case by simp
next
  case (Cons m ms)
  from Cons.prems(1) obtain d1 k ks' where
    1: "flush_obj d m = Inr (d1, k)" and 2: "flush_all d1 ms = Inr (d', ks')"
    by (auto simp: bindE_def split: sum.splits)
  from Cons.prems(2) have "orels m = []" "ecls m \<notin> C" "outside C ms"
    by (auto simp: outside_def)
  with flush_obj_keeps[OF 1] Cons.IH[OF 2] show ?case by (blast intro: keeps_trans)
qed

lemma add_commit_keeps:
  assumes "add_commit s m = (Inr k, s')" and "outside C (spending s)"
    and "orels m = []" and "ecls m \<notin> C"
  shows "spending s' = [] \<and> keeps C (sdb s) (sdb s')"
proof -
  from assms(1) obtain r where
    fl: "flush_all (sdb s) (spending (session_add s m)) = Inr r" and s': "s' = \<lparr>sdb = fst r, spending = []\<rparr>"
    by (auto simp: add_commit_def commit_def session_add_def split: sum.splits)
  have "outside C (spending (session_add s m))"
    using assms(2-4) by (auto simp: outside_def session_add_def)
  with flush_all_keeps[of "sdb s" _ "fst r" "snd r" C] fl s' show ?thesis by simp
qed

lemma setattrs_SomeD:
  "setattrs item kvs = Inr (Some m') \<Longrightarrow>
   \<exists>m. item = Some m \<and> m' = fold (\<lambda>kv x. setattr x (fst kv) (snd kv)) kvs m"
  by (cases item) (auto simp: setattrs_None setattrs_Some split: list.splits)

lemma session_get_obj:
  "session_get s c k = Some m \<Longrightarrow> ecls m = c \<and> orels m = [] \<and> eident m = Some k
     \<and> find_row (sdb s) c k = Some (eattrs m)"
  by (auto simp: session_get_def split: option.splits)

lemma first_by_name_obj:
  "first_by_name s c v = Some m \<Longrightarrow> ecls m = c \<and> orels m = []"
  by (auto simp: first_by_name_def split: option.splits)

lemma new_obj_simps [simp]:
  "ecls (new_obj c) = c" "eident (new_obj c) = None" "orels (new_obj c) = []"
  by (simp_all add: new_obj_def)

lemma col_new_obj [simp]: "col (eattrs (new_obj c)) a = PNone"
  by (simp add: new_obj_def col_def map_of_map_restrict restrict_map_def)

lemma Units_create_or_update_keeps:
  assumes "Units_create_or_update env s data = (Inr j, s')"
    and "outside C (spending s)" and "Unit \<notin> C"
  shows "spending s' = [] \<and> keeps C (sdb s) (sdb s')"
proof -
  from assms(1) obtain item item' key where
    it: "(if truthy (col (p_fields data) ''id'')
            then Inr (session_get s Unit (col (p_fields data) ''id''))
            else bindE (getattr (p_fields data) ''name'') (\<lambda>name.
                   case first_by_name s Unit name of
                     Some same_name \<Rightarrow> Inr (Some same_name)
                   | None \<Rightarrow> Inr (Some (new_obj Unit)))) = Inr item"
    and st: "setattrs item (filter (\<lambda>kv. fst kv \<noteq> ''id'') (p_fields data)) = Inr (Some item')"
    and ac: "add_commit s item' = (Inr key, s')"
    by (auto simp: Units_create_or_update_def split: sum.splits option.splits prod.splits)
  from setattrs_SomeD[OF st] obtain m where
    m: "item = Some m" "item' = fold (\<lambda>kv x. setattr x (fst kv) (snd kv))
                                  (filter (\<lambda>kv. fst kv \<noteq> ''id'') (p_fields data)) m"
    by blast
  from it m(1) have "ecls m = Unit \<and> orels m = []"
    by (auto simp: bindE_def split: if_splits sum.splits option.splits
        dest: session_get_obj first_by_name_obj)
  with m(2) have "ecls item' = Unit" "orels item' = []" by simp_all
  with add_commit_keeps[OF ac assms(2)] assms(3) show ?thesis by simp
qed

lemma Controller_create_or_update_keeps:
  assumes "Controller_create_or_update env Controller_fill_model c s data = (Inr j, s')"
    and "outside C (spending s)" and "c \<notin> C"
  shows "spending s' = [] \<and> keeps C (sdb s) (sdb s')"
proof -
  let ?item = "if truthy (col (p_fields data) ''id'')
                  then session_get s c (col (p_fields data) ''id'')
                  else Some (new_obj c)"
  from assms(1) obtain item' key where
    st: "setattrs ?item (dict_exclude_none (p_fields data)) = Inr item'"
    and ac: "add_and_commit s item' = (Inr key, s')"
    by (auto simp: Controller_create_or_update_def Controller_fill_model_def Let_def
        split: sum.splits option.splits prod.splits)
  from ac obtain m' where m': "item' = Some m'" "add_commit s m' = (Inr key, s')"
    by (cases item') (auto simp: add_and_commit_def)
  from setattrs_SomeD[OF st[unfolded m'(1)]] obtain m where
    m: "?item = Some m" "m' = fold (\<lambda>kv x. setattr x (fst kv) (snd kv))
                                  (dict_exclude_none (p_fields data)) m"
    by blast
  from m(1) have "ecls m = c \<and> orels m = []"
    by (auto split: if_splits dest: session_get_obj)
  with m(2) have "ecls m' = c" "orels m' = []" by simp_all
  with add_commit_keeps[OF m'(2) assms(2)] assms(3) show ?thesis by simp
qed

text \<open>A line item as the first loop builds it from its payload.\<close>

definition built_item :: "item_payload \<Rightarrow> obj \<Rightarrow> bool" where
  "built_item it item \<longleftrightarrow>
     ecls item = IngredientItem \<and> eident item = None \<and> orels item = [] \<and>
     col (eattrs item) ''amount'' = col (i_fields it) ''amount'' \<and>
     col (eattrs item) ''note'' = col (i_fields it) ''note''"

lemma construct_result:
  assumes "construct c kwargs = Inr m"
  shows "ecls m = c" and "eident m = None" and "orels m = []"
    and "distinct (map fst kwargs) \<Longrightarrow> col (eattrs m) a = col kwargs a"
proof -
  from assms have m: "m = fold (\<lambda>kv x. setattr x (fst kv) (snd kv)) kwargs (new_obj c)"
    by (auto simp: construct_def split: list.splits)
  show "ecls m = c" "eident m = None" "orels m = []" by (simp_all add: m)
  show "col (eattrs m) a = col kwargs a" if "distinct (map fst kwargs)"
    using col_fold_setattr[OF that, of "new_obj c" a]
    by (simp add: m col_def[of kwargs] split: option.splits)
qed

lemma build_items_result:
  assumes "build_items env s its = (Inr built, s1)"
    and "outside C (spending s)" and "Unit \<notin> C" and "Ingredient \<notin> C"
    and "\<forall>it \<in> set its. distinct (map fst (i_fields it))"
  shows "keeps C (sdb s) (sdb s1) \<and> (if its = [] then s1 = s else spending s1 = [])
       \<and> list_all2 built_item its built"
  using assms(1,2,5)
proof (induction its arbitrary: s built)
  case Nil
  then show ?case by simp
next
  case (Cons it its)
  from Cons.prems(1) obtain updated_item u sa i sb rest where
    c: "construct IngredientItem (i_fields it) = Inr updated_item" and
    u: "Units_create_or_update env s (flat (i_unit it)) = (Inr u, sa)" and
    i: "Controller_create_or_update env Controller_fill_model Ingredient sa
          (flat (i_ingredient it)) = (Inr i, sb)" and
    r: "build_items env sb its = (Inr rest, s1)" and
    built: "built = setattr (setattr updated_item ''unit_id'' (read_id u))
                      ''ingredient_id'' (read_id i) # rest"
    by (auto split: sum.splits prod.splits)
  from Cons.prems(3) have di: "distinct (map fst (i_fields it))"
    and dr: "\<forall>it \<in> set its. distinct (map fst (i_fields it))" by auto
  from Units_create_or_update_keeps[OF u Cons.prems(2) assms(3)]
  have a: "spending sa = []" "keeps C (sdb s) (sdb sa)" by auto
  then have "outside C (spending sa)" by (simp add: outside_def)
  from Controller_create_or_update_keeps[OF i this assms(4)]
  have b: "spending sb = []" "keeps C (sdb sa) (sdb sb)" by auto
  then have ob: "outside C (spending sb)" by (simp add: outside_def)
  from Cons.IH[OF r ob dr] have ih: "keeps C (sdb sb) (sdb s1)"
    "if its = [] then s1 = sb else spending s1 = []" "list_all2 built_item its rest"
    by auto
  from ih(2) b(1) have sp: "spending s1 = []" by (auto split: if_splits)
  have "built_item it (setattr (setattr updated_item ''unit_id'' (read_id u))
                      ''ingredient_id'' (read_id i))"
    using construct_result(1-3)[OF c] construct_result(4)[OF c di]
    by (simp add: built_item_def setattr_def col_update)
  with built ih(3) a(2) b(2) ih(1) sp show ?case
    by (auto intro: keeps_trans)
qed

text \<open>A tag as the second loop builds it from its payload.\<close>

definition built_member :: "session \<Rightarrow> (string \<times> pyval) list \<Rightarrow> ent option \<Rightarrow> bool" where
  "built_member s tag m \<longleftrightarrow>
     (if truthy (col tag ''id'')
      then m = map_option as_member (session_get s Tag (col tag ''id''))
      else \<exists>e. m = Some e \<and> ecls e = Tag \<and> eident e = None \<and>
             col (eattrs e) ''name'' = col tag ''name'')"

lemma build_tags_result:
  "build_tags s tags = Inr ms \<Longrightarrow> \<forall>tag \<in> set tags. distinct (map fst tag) \<Longrightarrow>
   list_all2 (built_member s) tags ms"
proof (induction tags arbitrary: ms)
  case Nil
  then show ?case by simp
next
  case (Cons tag tags)
  from Cons.prems(1) obtain m rest where
    m: "(if truthy (col tag ''id'')
            then Inr (map_option as_member (session_get s Tag (col tag ''id'')))
            else bindE (construct Tag tag) (\<lambda>t. Inr (Some (as_member t)))) = Inr m"
    and r: "build_tags s tags = Inr rest" and ms: "ms = m # rest"
    by (auto simp: bindE_def split: sum.splits)
  from Cons.prems(2) have dt: "distinct (map fst tag)"
    and dr: "\<forall>tag \<in> set tags. distinct (map fst tag)" by auto
  have "built_member s tag m"
  proof (cases "truthy (col tag ''id'')")
    case True
    with m show ?thesis by (simp add: built_member_def)
  next
    case False
    with m obtain t where t: "construct Tag tag = Inr t" "m = Some (as_member t)"
      by (auto simp: bindE_def split: sum.splits)
    from construct_result(1-3)[OF t(1)] construct_result(4)[OF t(1) dt] t(2) False
    show ?thesis by (simp add: built_member_def as_member_def)
  qed
  with Cons.IH[OF r dr] ms show ?case by simp
qed

text \<open>
  What the claim C1 is about, for the recipe \<open>key\<close> between the state \<open>d\<close> before a write
  and the state \<open>d'\<close> after it.
  \<^item> \<open>new_item\<close>: the key of a line item that was built from an item payload: no row
    had it before, and its row now holds the amount (the column default 0 when
    the payload has none) and the note of the payload.
  \<^item> \<open>built_tag\<close>: the key of a tag that was built from a tag payload: the id of the
    payload when it carries one, which a row had before; otherwise a key no row had,
    whose row now holds the name of the payload.
  \<^item> \<open>collections_are\<close>: the recipe has a row; the items attached to it are the keys
    \<open>ids\<close>, one new item for each item payload, and the tags attached to it are the keys
    \<open>tids\<close>, one built tag for each tag payload; every row that the ingredient-item
    table and the tag table held before is still there.
\<close>

definition new_item :: "db \<Rightarrow> db \<Rightarrow> item_payload \<Rightarrow> pyval \<Rightarrow> bool" where
  "new_item d d' it k \<longleftrightarrow>
     find_row d IngredientItem k = None \<and>
     (case find_row d' IngredientItem k of
        None \<Rightarrow> False
      | Some r \<Rightarrow>
          col r ''amount'' = (if col (i_fields it) ''amount'' = PNone then PInt 0
                              else col (i_fields it) ''amount'') \<and>
          col r ''note'' = col (i_fields it) ''note'')"

definition built_tag :: "db \<Rightarrow> db \<Rightarrow> (string \<times> pyval) list \<Rightarrow> pyval \<Rightarrow> bool" where
  "built_tag d d' tag k \<longleftrightarrow>
     (if truthy (col tag ''id'') then k = col tag ''id'' \<and> find_row d Tag k \<noteq> None
      else find_row d Tag k = None \<and>
           (case find_row d' Tag k of
              None \<Rightarrow> False
            | Some r \<Rightarrow> col r ''name'' = col tag ''name''))"

definition collections_are ::
  "db \<Rightarrow> db \<Rightarrow> pyval \<Rightarrow> payload \<Rightarrow> pyval list \<Rightarrow> pyval list \<Rightarrow> bool" where
  "collections_are d d' key data ids tids \<longleftrightarrow>
     find_row d' Recipe key \<noteq> None \<and>
     set (members_of d' Ingredients_tbl key) = set ids \<and>
     list_all2 (new_item d d') (p_ingredients data) ids \<and>
     set (members_of d' Tags_tbl key) = set tids \<and>
     list_all2 (built_tag d d') (p_tags data) tids \<and>
     set (rows d IngredientItem) \<subseteq> set (rows d' IngredientItem) \<and>
     set (rows d Tag) \<subseteq> set (rows d' Tag)"

text \<open>The field names of a payload are distinct, at every level.\<close>

definition payload_ok :: "payload \<Rightarrow> bool" where
  "payload_ok data \<longleftrightarrow>
     distinct (map fst (p_fields data)) \<and>
     (\<forall>it \<in> set (p_ingredients data). distinct (map fst (i_fields it))) \<and>
     (\<forall>tag \<in> set (p_tags data). distinct (map fst tag))"

lemma find_row_cong: "rows d c = rows d' c \<Longrightarrow> find_row d c k = find_row d' c k"
  by (simp add: find_row_def)

lemma new_item_flushed:
  assumes "built_item it b" and "flushed d d' (Some (as_member b)) k"
  shows "new_item d d' it k"
proof -
  from assms(1) have b: "ecls (as_member b) = IngredientItem" "eident (as_member b) = None"
    "col (eattrs (as_member b)) ''amount'' = col (i_fields it) ''amount''"
    "col (eattrs (as_member b)) ''note'' = col (i_fields it) ''note''"
    by (simp_all add: built_item_def as_member_def)
  with assms(2) obtain r where r: "find_row d IngredientItem k = None"
    "find_row d' IngredientItem k = Some r"
    "\<forall>a \<in> set (columns IngredientItem). a \<noteq> ''id'' \<longrightarrow>
       col r a = (if col (eattrs (as_member b)) a = PNone then column_default IngredientItem a
                  else col (eattrs (as_member b)) a)"
    by (auto simp: flushed_def split: option.splits)
  from r(3) b(3,4) have "col r ''amount'' = (if col (i_fields it) ''amount'' = PNone then PInt 0
                              else col (i_fields it) ''amount'')"
    "col r ''note'' = col (i_fields it) ''note''"
    by (simp_all add: column_default_def)
  with r(1,2) show ?thesis by (simp add: new_item_def)
qed

lemma built_tag_flushed:
  assumes "built_member s tag m" and "flushed d d' m k" and "rows (sdb s) Tag = rows d Tag"
  shows "built_tag d d' tag k"
proof (cases "truthy (col tag ''id'')")
  case True
  with assms(1) have m: "m = map_option as_member (session_get s Tag (col tag ''id''))"
    by (simp add: built_member_def)
  with assms(2) obtain ob where ob: "session_get s Tag (col tag ''id'') = Some ob"
    by (cases "session_get s Tag (col tag ''id'')") (auto simp: flushed_def)
  from session_get_obj[OF ob] have "eident ob = Some (col tag ''id'')"
    "find_row (sdb s) Tag (col tag ''id'') \<noteq> None" by auto
  moreover from this(1) assms(2) m ob have "k = col tag ''id''"
    by (simp add: flushed_def as_member_def)
  ultimately show ?thesis using True find_row_cong[OF assms(3)]
    by (simp add: built_tag_def)
next
  case False
  with assms(1) obtain e where e: "m = Some e" "ecls e = Tag" "eident e = None"
    "col (eattrs e) ''name'' = col tag ''name''"
    by (auto simp: built_member_def)
  with assms(2) obtain r where r: "find_row d Tag k = None" "find_row d' Tag k = Some r"
    "\<forall>a \<in> set (columns Tag). a \<noteq> ''id'' \<longrightarrow>
       col r a = (if col (eattrs e) a = PNone then column_default Tag a else col (eattrs e) a)"
    by (auto simp: flushed_def split: option.splits)
  from r(3) e(4) have "col r ''name'' = col tag ''name''"
    by (simp add: column_default_def)
  with r(1,2) False show ?thesis by (simp add: built_tag_def)
qed

lemma flush_obj_InrD:
  "flush_obj d m = Inr (d', k) \<Longrightarrow>
   \<exists>d1. (case eident m of
           None \<Rightarrow> insert_row d (ecls m) (eattrs m)
         | Some k' \<Rightarrow> update_row d (ecls m) k' (eattrs m)) = Inr (d1, k)
      \<and> sync_rels d1 (ecls m) k (orels m) = Inr d'"
  by (auto simp: flush_obj_def bindE_def split: sum.splits)

text \<open>
  The merge routine of the recipe controller followed by \<^verbatim>\<open>session.add\<close> and
  \<^verbatim>\<open>session.commit\<close>, on a recipe instance without assigned collections: the common part
  of \<^verbatim>\<open>update\<close> and \<^verbatim>\<open>create\<close>.
\<close>

lemma recipe_write:
  assumes sp: "spending s = []" and m: "ecls m = Recipe" "orels m = []"
    and ok: "payload_ok data"
    and fill: "Recipes_fill_model env s (Some m) data = (Inr mo, s1)"
    and ac: "add_and_commit s1 mo = (Inr key, s2)"
  shows "\<exists>ids tids.
           (case eident m of
              None \<Rightarrow> find_row (sdb s) Recipe key = None \<and> find_row (sdb s2) Recipe key \<noteq> None
            | Some k \<Rightarrow>
                key = col (eattrs (fold (\<lambda>kv x. setattr x (fst kv) (snd kv))
                                     (dict_exclude_none (p_fields data)) m)) ''id'' \<and>
                (key \<noteq> PNone \<longrightarrow> find_row (sdb s2) Recipe key \<noteq> None))
         \<and> set (members_of (sdb s2) Ingredients_tbl key) = set ids
         \<and> list_all2 (new_item (sdb s) (sdb s2)) (p_ingredients data) ids
         \<and> set (members_of (sdb s2) Tags_tbl key) = set tids
         \<and> list_all2 (built_tag (sdb s) (sdb s2)) (p_tags data) tids
         \<and> set (rows (sdb s) IngredientItem) \<subseteq> set (rows (sdb s2) IngredientItem)
         \<and> set (rows (sdb s) Tag) \<subseteq> set (rows (sdb s2) Tag)"
proof -
  let ?m1 = "fold (\<lambda>kv x. setattr x (fst kv) (snd kv)) (dict_exclude_none (p_fields data)) m"
  let ?s0 = "if eident ?m1 = None then s else session_add s ?m1"
  let ?C = "if eident m = None then {IngredientItem, Tag, Recipe} else {IngredientItem, Tag}"
  from ok have d_it: "\<forall>it \<in> set (p_ingredients data). distinct (map fst (i_fields it))"
    and d_tag: "\<forall>tag \<in> set (p_tags data). distinct (map fst tag)"
    by (auto simp: payload_ok_def)
  from fill obtain built tags where
    bi: "build_items env ?s0 (p_ingredients data) = (Inr built, s1)" and
    bt: "build_tags s1 (p_tags data) = Inr tags" and
    mo: "mo = Some (set_rel (set_rel ?m1 ''ingredients'' (map (\<lambda>x. Some (as_member x)) built))
                      ''tags'' tags)"
    by (auto simp: Recipes_fill_model_def Recipes_get_ingredients_and_tags_def Let_def bindE_def
        split: sum.splits prod.splits)
  let ?its = "map (\<lambda>x. Some (as_member x)) built"
  let ?m2 = "set_rel (set_rel ?m1 ''ingredients'' ?its) ''tags'' tags"
  have m1: "ecls ?m1 = Recipe" "orels ?m1 = []" "eident ?m1 = eident m" using m by simp_all
  have m2: "ecls ?m2 = Recipe" "eident ?m2 = eident m" "eattrs ?m2 = eattrs ?m1"
    "orels ?m2 = [(''ingredients'', ?its), (''tags'', tags)]"
    using m1 by (simp_all add: set_rel_def)
  have s0: "sdb ?s0 = sdb s" "spending ?s0 = (if eident m = None then [] else [?m1])"
    using sp m1 by (auto simp: session_add_def)
  have out: "outside ?C (spending ?s0)"
    using s0(2) m1 by (auto simp: outside_def)
  have "Unit \<notin> ?C" "Ingredient \<notin> ?C" by auto
  from build_items_result[OF bi out this d_it]
  have k1: "keeps ?C (sdb s) (sdb s1)"
    and sp1: "if p_ingredients data = [] then s1 = ?s0 else spending s1 = []"
    and bl: "list_all2 built_item (p_ingredients data) built"
    using s0(1) by auto
  have sp1': "spending s1 = [] \<or> (eident m \<noteq> None \<and> spending s1 = [?m1])"
    using sp1 s0(2) by (auto split: if_splits)
  have pend: "spending (session_add s1 ?m2) = [?m2]"
    using sp1' m1 m2 by (auto simp: session_add_def)
  from ac mo have "add_commit s1 ?m2 = (Inr key, s2)" by (simp add: add_and_commit_def)
  with pend obtain d2 where fl: "flush_obj (sdb s1) ?m2 = Inr (d2, key)" and s2: "sdb s2 = d2"
    by (auto simp: add_commit_def commit_def session_add_def bindE_def
        split: sum.splits prod.splits)
  from flush_obj_InrD[OF fl, unfolded m2] obtain d1 where
    first: "(case eident m of
               None \<Rightarrow> insert_row (sdb s1) Recipe (eattrs ?m1)
             | Some k \<Rightarrow> update_row (sdb s1) Recipe k (eattrs ?m1)) = Inr (d1, key)"
    and sy: "sync_rels d1 Recipe key [(''ingredients'', ?its), (''tags'', tags)] = Inr d2"
    by blast
  from sync_rels_recipe[OF sy] obtain ids tids where
    f_it: "list_all2 (flushed d1 d2) ?its ids" and f_tg: "list_all2 (flushed d1 d2) tags tids"
    and ms: "set (members_of d2 Ingredients_tbl key) = set ids"
      "set (members_of d2 Tags_tbl key) = set tids"
    and g12: "\<And>c. grows c d1 d2"
    by blast
  have fr1: "c \<noteq> Recipe \<Longrightarrow> rows d1 c = rows (sdb s1) c" for c
  proof (cases "eident m")
    case None
    with first insert_row_result(2)[of "sdb s1" Recipe "eattrs ?m1" d1 key c]
    show "c \<noteq> Recipe \<Longrightarrow> rows d1 c = rows (sdb s1) c" by simp
  next
    case (Some k)
    with first update_row_result(3)[of "sdb s1" Recipe k "eattrs ?m1" d1 key c]
    show "c \<noteq> Recipe \<Longrightarrow> rows d1 c = rows (sdb s1) c" by simp
  qed
  from k1 have same: "rows (sdb s1) IngredientItem = rows (sdb s) IngredientItem"
    "rows (sdb s1) Tag = rows (sdb s) Tag"
    by (auto simp: keeps_def split: if_splits)
  have e_it: "rows d1 IngredientItem = rows (sdb s) IngredientItem"
    and e_tg: "rows d1 Tag = rows (sdb s) Tag"
    using fr1[of IngredientItem] fr1[of Tag] same by simp_all
  have g_it: "grows IngredientItem (sdb s) d2" and g_tg: "grows Tag (sdb s) d2"
    using grows_trans[OF grows_eq[OF e_it] g12] grows_trans[OF grows_eq[OF e_tg] g12]
    by simp_all
  have f_it': "list_all2 (\<lambda>b k. flushed d1 d2 (Some (as_member b)) k) built ids"
    using f_it by (simp add: list_all2_map1)
  have items: "list_all2 (new_item (sdb s) d2) (p_ingredients data) ids"
  proof -
    have "\<And>it b k. built_item it b \<Longrightarrow> flushed d1 d2 (Some (as_member b)) k
        \<Longrightarrow> new_item (sdb s) d2 it k"
    proof -
      fix it b k assume bi: "built_item it b" and fl: "flushed d1 d2 (Some (as_member b)) k"
      from bi have c: "ecls (as_member b) = IngredientItem"
        by (simp add: built_item_def as_member_def)
      have "flushed (sdb s) d2 (Some (as_member b)) k"
        by (rule flushed_mono[OF fl]) (simp_all add: c grows_eq[OF e_it])
      with bi show "new_item (sdb s) d2 it k" by (rule new_item_flushed)
    qed
    from list_all2_trans[of built_item "\<lambda>b k. flushed d1 d2 (Some (as_member b)) k"
      "new_item (sdb s) d2", OF this bl f_it']
    show ?thesis .
  qed
  have tags: "list_all2 (built_tag (sdb s) d2) (p_tags data) tids"
  proof -
    have "\<And>tag mm k. built_member s1 tag mm \<Longrightarrow> flushed d1 d2 mm k
        \<Longrightarrow> built_tag (sdb s) d2 tag k"
    proof -
      fix tag mm k assume bm: "built_member s1 tag mm" and fl: "flushed d1 d2 mm k"
      have cls: "ecls e = Tag" if "mm = Some e" "eident e = None" for e
      proof (cases "truthy (col tag ''id'')")
        case True
        with bm that(1) have "map_option as_member (session_get s1 Tag (col tag ''id'')) = Some e"
          by (simp add: built_member_def)
        then obtain ob where
          ob: "session_get s1 Tag (col tag ''id'') = Some ob" "e = as_member ob"
          by (cases "session_get s1 Tag (col tag ''id'')") auto
        from session_get_obj[OF ob(1)] ob(2) show ?thesis by (simp add: as_member_def)
      next
        case False
        with bm that(1) show ?thesis by (auto simp: built_member_def)
      qed
      have "flushed (sdb s) d2 mm k"
      proof (cases mm)
        case None
        with fl show ?thesis by (simp add: flushed_def)
      next
        case (Some e)
        show ?thesis
        proof (cases "eident e")
          case None
          from cls[OF Some None] have c: "ecls e = Tag" .
          show ?thesis
            by (rule flushed_mono[OF fl]) (use Some c in \<open>simp_all add: grows_eq[OF e_tg]\<close>)
        next
          case (Some k')
          with \<open>mm = Some e\<close> fl show ?thesis by (simp add: flushed_def)
        qed
      qed
      with bm show "built_tag (sdb s) d2 tag k"
        by (rule built_tag_flushed) (rule same(2))
    qed
    from list_all2_trans[of "built_member s1" "flushed d1 d2" "built_tag (sdb s) d2",
        OF this build_tags_result[OF bt d_tag] f_tg]
    show ?thesis .
  qed
  have keyfacts: "case eident m of
              None \<Rightarrow> find_row (sdb s) Recipe key = None \<and> find_row d2 Recipe key \<noteq> None
            | Some k \<Rightarrow> key = col (eattrs ?m1) ''id'' \<and>
                (key \<noteq> PNone \<longrightarrow> find_row d2 Recipe key \<noteq> None)"
  proof (cases "eident m")
    case None
    with first have ins: "insert_row (sdb s1) Recipe (eattrs ?m1) = Inr (d1, key)" by simp
    from k1 None have "rows (sdb s1) Recipe = rows (sdb s) Recipe" by (simp add: keeps_def)
    from insert_row_result(4)[OF ins] find_row_cong[OF this]
    have "find_row (sdb s) Recipe key = None" by simp
    moreover from insert_row_result(5)[OF ins] obtain r where "find_row d1 Recipe key = Some r"
      by blast
    from find_row_grows_Some[OF g12 this] have "find_row d2 Recipe key \<noteq> None" by simp
    ultimately show ?thesis using None by simp
  next
    case (Some k)
    with first have up: "update_row (sdb s1) Recipe k (eattrs ?m1) = Inr (d1, key)" by simp
    from update_row_result(1)[OF up] have "key = col (eattrs ?m1) ''id''" .
    moreover have "find_row d2 Recipe key \<noteq> None" if "key \<noteq> PNone"
      using find_row_grows_Some[OF g12 update_row_result(5)[OF up that]] by simp
    ultimately show ?thesis using Some by simp
  qed
  show ?thesis
    using keyfacts ms items tags grows_subset[OF g_it] grows_subset[OF g_tg]
    unfolding s2 by blast
qed

text \<open>
  C1. After a successful \<^verbatim>\<open>update\<close> or \<^verbatim>\<open>create\<close> of a recipe (on a
  session with nothing pending, with a payload whose field names are distinct), the
  items attached to the recipe are exactly the line items newly built from the payload
  and the tags attached to it are exactly the tags built from the payload. Nothing is
  destroyed: every ingredient-item row and every tag row of the state before is still
  there, so a previously attached item is detached and stays as a row of its own.
\<close>

theorem recipe_write_replaces_collections:
  assumes "spending s = []" and "payload_ok data"
  shows "(update env RecipesController s rid data = (Inr j, s') \<longrightarrow>
            (\<exists>ids tids. collections_are (sdb s) (sdb s')
               (if col (p_fields data) ''id'' = PNone then rid else col (p_fields data) ''id'')
               data ids tids))
       \<and> (create env RecipesController s data = (Inr j, s') \<longrightarrow>
            (\<exists>key ids tids. find_row (sdb s) Recipe key = None
               \<and> collections_are (sdb s) (sdb s') key data ids tids))"
proof (intro conjI impI)
  assume u: "update env RecipesController s rid data = (Inr j, s')"
  let ?key = "if col (p_fields data) ''id'' = PNone then rid else col (p_fields data) ''id''"
  from u obtain item where item: "session_get s Recipe rid = Some item"
    by (auto simp: update_def Controller_update_def bindE_def not_found_def
        split: option.splits sum.splits)
  with u obtain mo s1 key s2 where
    fill: "Recipes_fill_model env s (Some item) data = (Inr mo, s1)" and
    ac: "add_and_commit s1 mo = (Inr key, s2)" and
    gs: "Controller_get_single env Recipe s2 key = (Inr j, s')"
    by (auto simp: update_def Controller_update_def fill_model_def
        split: sum.splits prod.splits)
  from gs have s': "s' = s2" by (auto simp: Controller_get_single_def split: option.splits)
  from session_get_obj[OF item]
  have it: "ecls item = Recipe" "orels item = []" "eident item = Some rid"
    "find_row (sdb s) Recipe rid = Some (eattrs item)" by simp_all
  from it find_row_SomeD[of "sdb s" Recipe rid "eattrs item"]
  have rid: "rid \<noteq> PNone" "col (eattrs item) ''id'' = rid" by (auto simp: row_id_def)
  from assms(2) have "distinct (map fst (p_fields data))" by (simp add: payload_ok_def)
  from default_merge_col[OF this, of item "''id''"] rid
  have km: "col (eattrs (fold (\<lambda>kv x. setattr x (fst kv) (snd kv))
                           (dict_exclude_none (p_fields data)) item)) ''id'' = ?key"
    "?key \<noteq> PNone" by auto
  from recipe_write[OF assms(1) it(1) it(2) assms(2) fill ac] it(3) km
  obtain ids tids where
    "find_row (sdb s2) Recipe ?key \<noteq> None"
    "set (members_of (sdb s2) Ingredients_tbl ?key) = set ids"
    "list_all2 (new_item (sdb s) (sdb s2)) (p_ingredients data) ids"
    "set (members_of (sdb s2) Tags_tbl ?key) = set tids"
    "list_all2 (built_tag (sdb s) (sdb s2)) (p_tags data) tids"
    "set (rows (sdb s) IngredientItem) \<subseteq> set (rows (sdb s2) IngredientItem)"
    "set (rows (sdb s) Tag) \<subseteq> set (rows (sdb s2) Tag)"
    by (auto split: if_splits)
  then have "collections_are (sdb s) (sdb s') ?key data ids tids"
    unfolding collections_are_def s' by simp
  then show "\<exists>ids tids. collections_are (sdb s) (sdb s') ?key data ids tids"
    by blast
next
  assume c: "create env RecipesController s data = (Inr j, s')"
  then obtain mo s1 key s2 where
    fill: "Recipes_fill_model env s (Some (new_obj Recipe)) data = (Inr mo, s1)" and
    ac: "add_and_commit s1 mo = (Inr key, s2)" and
    gs: "Controller_get_single env Recipe s2 key = (Inr j, s')"
    by (auto simp: create_def Controller_create_def fill_model_def
        split: sum.splits prod.splits)
  from gs have s': "s' = s2" by (auto simp: Controller_get_single_def split: option.splits)
  from recipe_write[OF assms(1) _ _ assms(2) fill ac]
  obtain ids tids where
    "find_row (sdb s) Recipe key = None" "find_row (sdb s2) Recipe key \<noteq> None"
    "set (members_of (sdb s2) Ingredients_tbl key) = set ids"
    "list_all2 (new_item (sdb s) (sdb s2)) (p_ingredients data) ids"
    "set (members_of (sdb s2) Tags_tbl key) = set tids"
    "list_all2 (built_tag (sdb s) (sdb s2)) (p_tags data) tids"
    "set (rows (sdb s) IngredientItem) \<subseteq> set (rows (sdb s2) IngredientItem)"
    "set (rows (sdb s) Tag) \<subseteq> set (rows (sdb s2) Tag)"
    by auto
  then have "find_row (sdb s) Recipe key = None
               \<and> collections_are (sdb s) (sdb s') key data ids tids"
    unfolding collections_are_def s' by simp
  then show "\<exists>key ids tids. find_row (sdb s) Recipe key = None
               \<and> collections_are (sdb s) (sdb s') key data ids tids"
    by blast
qed

text \<open>
  The recipe \<^verbatim>\<open>Soup\<close> holds the line item 10. After an update with an empty list of
  ingredients the item is no longer attached to the recipe, and its row is still there:
  the relationship cascades \<^verbatim>\<open>all\<close>, which has no \<^verbatim>\<open>delete-orphan\<close>.
\<close>

theorem recipe_write_replaces_collections_counterexample:
  "\<not> isl (fst (update env0 RecipesController (session_on soup_db) (PInt 1)
                  \<lparr>p_fields = [], p_tags = [], p_ingredients = []\<rparr>))
   \<and> members_of soup_db Ingredients_tbl (PInt 1) = [PInt 10]
   \<and> members_of (sdb (snd (update env0 RecipesController (session_on soup_db) (PInt 1)
        \<lparr>p_fields = [], p_tags = [], p_ingredients = []\<rparr>))) Ingredients_tbl (PInt 1) = []
   \<and> find_row (sdb (snd (update env0 RecipesController (session_on soup_db) (PInt 1)
        \<lparr>p_fields = [], p_tags = [], p_ingredients = []\<rparr>))) IngredientItem (PInt 10)
      = Some [(''id'', PInt 10), (''ingredient_id'', PInt 3), (''amount'', PInt 2),
              (''unit_id'', PInt 1), (''note'', PNone), (''exclude'', PBool False)]"
proof -
  let ?u = "update env0 RecipesController (session_on soup_db) (PInt 1)
              \<lparr>p_fields = [], p_tags = [], p_ingredients = []\<rparr>"
  have "case ?u of (r, t) \<Rightarrow>
          (case r of Inl e \<Rightarrow> False | Inr j \<Rightarrow> True)
        \<and> members_of (sdb t) Ingredients_tbl (PInt 1) = []
        \<and> find_row (sdb t) IngredientItem (PInt 10)
            = Some [(''id'', PInt 10), (''ingredient_id'', PInt 3), (''amount'', PInt 2),
                    (''unit_id'', PInt 1), (''note'', PNone), (''exclude'', PBool False)]"
    by (simp add: eval_defs)
  moreover have "members_of soup_db Ingredients_tbl (PInt 1) = [PInt 10]"
    by (simp add: members_of_def soup_db_def)
  ultimately show ?thesis by (cases ?u) (auto split: sum.splits)
qed

text \<open>
  An update of \<^verbatim>\<open>Soup\<close> with one line item, one tag found by its id and one new tag.
\<close>

theorem recipe_write_replaces_collections_witness:
  "members_of (sdb (snd (update env0 RecipesController (session_on soup_db) (PInt 1)
      \<lparr>p_fields = [(''title'', PStr ''Stew'')],
       p_tags = [[(''id'', PInt 1), (''name'', PStr ''veg'')],
                 [(''id'', PNone), (''name'', PStr ''new'')]],
       p_ingredients = [\<lparr>i_fields = [(''amount'', PInt 3), (''note'', PNone)],
                         i_ingredient = [(''id'', PInt 4), (''name'', PStr ''pepper'')],
                         i_unit = [(''name'', PStr ''g'')]\<rparr>]\<rparr>))) Ingredients_tbl (PInt 1)
     = [PInt 11]
   \<and> members_of (sdb (snd (update env0 RecipesController (session_on soup_db) (PInt 1)
      \<lparr>p_fields = [(''title'', PStr ''Stew'')],
       p_tags = [[(''id'', PInt 1), (''name'', PStr ''veg'')],
                 [(''id'', PNone), (''name'', PStr ''new'')]],
       p_ingredients = [\<lparr>i_fields = [(''amount'', PInt 3), (''note'', PNone)],
                         i_ingredient = [(''id'', PInt 4), (''name'', PStr ''pepper'')],
                         i_unit = [(''name'', PStr ''g'')]\<rparr>]\<rparr>))) Tags_tbl (PInt 1)
     = [PInt 1, PInt 2]
   \<and> (\<exists>ids tids. collections_are soup_db
        (sdb (snd (update env0 RecipesController (session_on soup_db) (PInt 1)
      \<lparr>p_fields = [(''title'', PStr ''Stew'')],
       p_tags = [[(''id'', PInt 1), (''name'', PStr ''veg'')],
                 [(''id'', PNone), (''name'', PStr ''new'')]],
       p_ingredients = [\<lparr>i_fields = [(''amount'', PInt 3), (''note'', PNone)],
                         i_ingredient = [(''id'', PInt 4), (''name'', PStr ''pepper'')],
                         i_unit = [(''name'', PStr ''g'')]\<rparr>]\<rparr>)))
        (PInt 1)
      \<lparr>p_fields = [(''title'', PStr ''Stew'')],
       p_tags = [[(''id'', PInt 1), (''name'', PStr ''veg'')],
                 [(''id'', PNone), (''name'', PStr ''new'')]],
       p_ingredients = [\<lparr>i_fields = [(''amount'', PInt 3), (''note'', PNone)],
                         i_ingredient = [(''id'', PInt 4), (''name'', PStr ''pepper'')],
                         i_unit = [(''name'', PStr ''g'')]\<rparr>]\<rparr> ids tids)"
proof -
  let ?s = "session_on soup_db"
  let ?data = "\<lparr>p_fields = [(''title'', PStr ''Stew'')],
       p_tags = [[(''id'', PInt 1), (''name'', PStr ''veg'')],
                 [(''id'', PNone), (''name'', PStr ''new'')]],
       p_ingredients = [\<lparr>i_fields = [(''amount'', PInt 3), (''note'', PNone)],
                         i_ingredient = [(''id'', PInt 4), (''name'', PStr ''pepper'')],
                         i_unit = [(''name'', PStr ''g'')]\<rparr>]\<rparr>"
  let ?u = "update env0 RecipesController ?s (PInt 1) ?data"
  have h1: "spending ?s = []" by (simp add: session_on_def)
  have h2: "payload_ok ?data" by (simp add: payload_ok_def)
  have ev: "case ?u of (r, t) \<Rightarrow>
              (case r of Inl e \<Rightarrow> False | Inr j \<Rightarrow> True)
            \<and> members_of (sdb t) Ingredients_tbl (PInt 1) = [PInt 11]
            \<and> members_of (sdb t) Tags_tbl (PInt 1) = [PInt 1, PInt 2]"
    by (simp add: eval_defs)
  then obtain j where "fst ?u = Inr j" by (cases ?u; cases "fst ?u") auto
  then have h3: "?u = (Inr j, snd ?u)" by (metis prod.collapse)
  from ev have e1: "members_of (sdb (snd ?u)) Ingredients_tbl (PInt 1) = [PInt 11]"
    by (cases ?u) auto
  from ev have e2: "members_of (sdb (snd ?u)) Tags_tbl (PInt 1) = [PInt 1, PInt 2]"
    by (cases ?u) auto
  have e3: "col (p_fields ?data) ''id'' = PNone" by (simp add: col_def)
  have e4: "sdb ?s = soup_db" by (simp add: session_on_def)
  show ?thesis
    using recipe_write_replaces_collections[OF h1 h2, of env0 "PInt 1" j "snd ?u"] h3 e1 e2 e3 e4
    by simp
qed

text \<open>
  A tag of the payload with an id that no row has is appended as the \<^verbatim>\<open>None\<close> that
  \<^verbatim>\<open>session.get\<close> returns: the commit raises and the recipe keeps its tags.
\<close>

lemma recipe_update_unresolved_tag_eval:
  "(case update env0 RecipesController (session_on soup_db) (PInt 1)
      \<lparr>p_fields = [], p_tags = [[(''id'', PInt 99), (''name'', PStr ''x'')]],
       p_ingredients = []\<rparr> of
      (r, t) \<Rightarrow> r = Inl (FlushError ''None value found in collection'')
        \<and> links (sdb t) Tags_tbl = [(PInt 1, PInt 1)])"
  by (simp add: eval_defs)

end
